theory Spec2Isabelle
  imports Complex_Main "HOL-Library.Sublist"
begin

text \<open>
  A model of \<^verbatim>\<open>agent.py\<close>, the generator of pytest files: the extractor of function
  signatures, the prompt builder, the model client, the output guard, the writer and the
  pipeline \<^verbatim>\<open>main\<close> that runs them in this order. Each function of the source is a
  function here; what the program reads and changes (files, environment, the chat model)
  is a state that is passed along, and a raised exception is the left summand of a result.
\<close>

section \<open>Python strings\<close>

text \<open>
  A Python \<^verbatim>\<open>str\<close> is a sequence of Unicode code points. A code point is modelled as a
  natural number and a string as a list of them, so that the line-boundary and white-space
  characters beyond ASCII (U+0085, U+2028, ...) that \<^verbatim>\<open>str.splitlines\<close> and
  \<^verbatim>\<open>str.strip\<close> know are part of the model. \<open>lit\<close> turns an ASCII literal into such
  a string.
\<close>

type_synonym str = "nat list"

definition lit :: "string \<Rightarrow> str" where
  "lit s = map of_char s"

definition NL :: str where
  \<comment> \<open>the one-character string \<^verbatim>\<open>"\n"\<close>\<close>
  "NL = [10]"

definition islinebreak :: "nat \<Rightarrow> bool" where
  \<comment> \<open>the line boundaries of \<^verbatim>\<open>str.splitlines\<close>: LF, VT, FF, CR, FS, GS, RS, NEL, LS, PS\<close>
  "islinebreak c \<longleftrightarrow> c \<in> set [10, 11, 12, 13, 28, 29, 30, 133, 8232, 8233]"

definition isspace :: "nat \<Rightarrow> bool" where
  \<comment> \<open>the white space that \<^verbatim>\<open>str.strip()\<close> removes\<close>
  "isspace c \<longleftrightarrow>
     (9 \<le> c \<and> c \<le> 13) \<or> (28 \<le> c \<and> c \<le> 32) \<or> c = 133 \<or> c = 160 \<or> c = 5760 \<or>
     (8192 \<le> c \<and> c \<le> 8202) \<or> c = 8232 \<or> c = 8233 \<or> c = 8239 \<or> c = 8287 \<or> c = 12288"

fun skip_break :: "str \<Rightarrow> str" where
  \<comment> \<open>step over the line break at the head of the rest, reading CR LF as one break\<close>
  "skip_break [] = []"
| "skip_break [c] = []"
| "skip_break (c # c' # cs) = (if c = 13 \<and> c' = 10 then cs else c' # cs)"

function splitlines :: "str \<Rightarrow> str list" where
  \<comment> \<open>\<^verbatim>\<open>str.splitlines()\<close>: while characters remain, cut the next line at the first line
      break (or at the end) and step over the break; no empty last line\<close>
  "splitlines s =
     (if s = [] then []
      else takeWhile (\<lambda>c. \<not> islinebreak c) s
             # splitlines (skip_break (dropWhile (\<lambda>c. \<not> islinebreak c) s)))"
  by pat_completeness auto

termination
proof (relation "measure length")
  show "wf (measure length)" by simp
next
  fix s :: str
  define r where "r = dropWhile (\<lambda>c. \<not> islinebreak c) s"
  assume ne: "s \<noteq> []"
  have le: "length r \<le> length s"
    unfolding r_def by (rule length_dropWhile_le)
  have "length (skip_break r) < length s"
  proof (cases r rule: skip_break.cases)
    case 1
    with ne show ?thesis by simp
  next
    case (2 c)
    with le ne show ?thesis by simp
  next
    case (3 c c' cs)
    with le show ?thesis by simp
  qed
  then show "(skip_break (dropWhile (\<lambda>c. \<not> islinebreak c) s), s) \<in> measure length"
    unfolding r_def by simp
qed

declare splitlines.simps [simp del]

definition lstrip :: "str \<Rightarrow> str" where
  "lstrip s = dropWhile isspace s"

definition rstrip :: "str \<Rightarrow> str" where
  "rstrip s = rev (dropWhile isspace (rev s))"

definition strip :: "str \<Rightarrow> str" where
  \<comment> \<open>\<^verbatim>\<open>str.strip()\<close> with no argument\<close>
  "strip s = rstrip (lstrip s)"

definition startswith :: "str \<Rightarrow> str \<Rightarrow> bool" where
  \<comment> \<open>\<^verbatim>\<open>s.startswith(p)\<close>\<close>
  "startswith s p \<longleftrightarrow> take (length p) s = p"

fun join :: "str \<Rightarrow> str list \<Rightarrow> str" where
  \<comment> \<open>\<^verbatim>\<open>sep.join(xs)\<close>\<close>
  "join sep [] = []"
| "join sep [x] = x"
| "join sep (x # y # ys) = x @ sep @ join sep (y # ys)"

definition list_insert :: "nat \<Rightarrow> 'a \<Rightarrow> 'a list \<Rightarrow> 'a list" where
  \<comment> \<open>\<^verbatim>\<open>xs.insert(i, x)\<close> for \<open>i \<ge> 0\<close>: an index beyond the end appends\<close>
  "list_insert i x xs = take i xs @ x # drop i xs"

section \<open>Data model\<close>

subsection \<open>Errors\<close>

text \<open>
  The exceptions the program can end with, as values: a missing input file, a source the
  parser refuses, the \<^verbatim>\<open>RuntimeError\<close> that the model client raises itself (with its
  message), and whatever the libraries it calls raise (the chat model's client after its
  retries, the file system, the test runner), kept apart by a number.
\<close>

datatype error =
    FileNotFoundError
  | SyntaxError
  | RuntimeError str
  | LibraryError nat

subsection \<open>The syntax tree\<close>

text \<open>
  What \<^verbatim>\<open>ast.parse\<close> returns, as far as the program looks at it: the statements of the
  module body, where \<^verbatim>\<open>def\<close>, \<^verbatim>\<open>async def\<close> and \<^verbatim>\<open>class\<close> are nodes of their own with
  a name and a body; an expression statement, which is a docstring when it is a string
  constant; a compound statement (\<^verbatim>\<open>if\<close>, \<^verbatim>\<open>for\<close>, \<^verbatim>\<open>while\<close>, \<^verbatim>\<open>with\<close>,
  \<^verbatim>\<open>try\<close>) with the statements nested in it; and any other simple statement. The
  parameters of a function are the node \<^verbatim>\<open>arguments\<close> with its five lists; decorators,
  annotations and defaults are left out.
\<close>

record ast_arg =
  arg :: str

record arguments =
  posonlyargs :: "ast_arg list"
  args :: "ast_arg list"
  vararg :: "ast_arg option"
  kwonlyargs :: "ast_arg list"
  kwarg :: "ast_arg option"

datatype expr =
    Constant_str str
  | Other_expr

datatype stmt =
    FunctionDef str arguments "stmt list"
  | AsyncFunctionDef str arguments "stmt list"
  | ClassDef str "stmt list"
  | Expr expr
  | Compound "stmt list"
  | Simple

subsection \<open>Function signatures\<close>

text \<open>
  An entry of the list \<^verbatim>\<open>functions\<close> is the dictionary
  \<^verbatim>\<open>{"name": ..., "args": ..., "doc": ...}\<close> that the extractor builds. From here on
  \<open>args\<close> is this field; the field of the syntax tree is written \<open>arguments.args\<close>.
\<close>

record func =
  name :: str
  args :: "str list"
  doc :: "str option"

subsection \<open>The world outside the program\<close>

text \<open>
  A path is what \<^verbatim>\<open>pathlib.Path\<close> makes of the command-line argument: the directory
  (\<^verbatim>\<open>parent\<close>) and the last component (\<^verbatim>\<open>name\<close>, here \<open>file_name\<close>).
\<close>

datatype path = Path (parent: str) (file_name: str)

text \<open>
  The configuration that \<^verbatim>\<open>call_azure_llm\<close> hands to \<^verbatim>\<open>AzureChatOpenAI\<close>, and what
  the program does to the world, in the order in which it does it: it creates the chat
  client, sends it the messages, writes a file, runs the test runner.
\<close>

record llm_config =
  azure_deployment :: str
  api_version :: str
  temperature :: real
  max_retries :: nat

datatype event =
    Client_created llm_config
  | Client_invoked llm_config "(str \<times> str) list"
  | File_written path
  | Pytest_run path

text \<open>
  The state of a run: the regular files with their contents (the decoded text, with the
  line ends as they are stored), the environment variables
  (after \<^verbatim>\<open>load_dotenv\<close>), and the trace of what the program has done so far. What the
  program prints to the terminal is not part of it.
\<close>

record world =
  files :: "path \<rightharpoonup> str"
  environ :: "str \<rightharpoonup> str"
  trace :: "event list"

text \<open>
  The libraries the program calls, as parameters: the parser \<^verbatim>\<open>ast.parse\<close> (which fails
  on a source that is not valid Python), \<^verbatim>\<open>inspect.cleandoc\<close> (through which
  \<^verbatim>\<open>ast.get_docstring\<close> passes a docstring), the constructor of the chat client and its
  \<^verbatim>\<open>invoke\<close> (which returns the reply's content, or fails once its retries are used up),
  \<^verbatim>\<open>Path.write_text\<close> (which fails or writes the whole text), and the child process
  \<^verbatim>\<open>pytest -q\<close> with its return code.
\<close>

record extern =
  ast_parse :: "str \<Rightarrow> error + stmt list"
  cleandoc :: "str \<Rightarrow> str"
  new_client :: "llm_config \<Rightarrow> error + unit"
  invoke :: "llm_config \<Rightarrow> (str \<times> str) list \<Rightarrow> error + str"
  write_text :: "path \<Rightarrow> str \<Rightarrow> error + unit"
  pytest :: "(path \<rightharpoonup> str) \<Rightarrow> path \<Rightarrow> error + int"

section \<open>The program\<close>

subsection \<open>The Signature Extractor\<close>

definition get_docstring :: "extern \<Rightarrow> stmt list \<Rightarrow> str option" where
  \<comment> \<open>\<^verbatim>\<open>ast.get_docstring(node)\<close> on the body of a function node: the first statement,
      when it is an expression statement holding a string constant, cleaned\<close>
  "get_docstring ext body =
     (case body of
        Expr (Constant_str text) # _ \<Rightarrow> Some (cleandoc ext text)
      | _ \<Rightarrow> None)"

fun extract_loop :: "extern \<Rightarrow> stmt list \<Rightarrow> func list \<Rightarrow> func list" where
  \<comment> \<open>the loop \<^verbatim>\<open>for node in tree.body\<close>, with the list \<^verbatim>\<open>funcs\<close> built so far\<close>
  "extract_loop ext [] funcs = funcs"
| "extract_loop ext (FunctionDef nm a body # rest) funcs =
     extract_loop ext rest
       (funcs @ [\<lparr>name = nm, args = map arg (arguments.args a), doc = get_docstring ext body\<rparr>])"
| "extract_loop ext (_ # rest) funcs = extract_loop ext rest funcs"

fun universal_newlines :: "str \<Rightarrow> str" where
  \<comment> \<open>what reading in text mode does to the line ends: \<^verbatim>\<open>\r\n\<close> and \<^verbatim>\<open>\r\<close> become
      \<^verbatim>\<open>\n\<close>\<close>
  "universal_newlines [] = []"
| "universal_newlines [c] = [if c = 13 then 10 else c]"
| "universal_newlines (c # d # cs) =
     (if c = 13 \<and> d = 10 then 10 # universal_newlines cs
      else (if c = 13 then 10 else c) # universal_newlines (d # cs))"

definition read_text :: "world \<Rightarrow> path \<Rightarrow> str option" where
  \<comment> \<open>\<^verbatim>\<open>open(path, "r", encoding="utf-8").read()\<close>; \<open>None\<close> when there is no such file\<close>
  "read_text w p = map_option universal_newlines (files w p)"

definition extract_top_level_functions :: "extern \<Rightarrow> world \<Rightarrow> path \<Rightarrow> error + func list \<times> str" where
  "extract_top_level_functions ext w py_file_path =
     (case read_text w py_file_path of
        None \<Rightarrow> Inl FileNotFoundError
      | Some src \<Rightarrow>
          (case ast_parse ext src of
             Inl e \<Rightarrow> Inl e
           | Inr body \<Rightarrow> Inr (extract_loop ext body [], src)))"

subsection \<open>The Prompt Builder\<close>

text \<open>
  The f-string \<^verbatim>\<open>human_prompt\<close> has the list of functions in one place; it is written
  here as the text before that place and the text after it. Characters outside ASCII are
  given by their code points.
\<close>

definition human_prompt_head :: "str \<Rightarrow> func list \<Rightarrow> str" where
  "human_prompt_head module_name functions =
     NL @
     lit ''Gere um arquivo pytest para o m'' @ [243] @ lit ''dulo '' @ [34] @ module_name @ [34] @ lit ''. '' @ NL @
     lit ''Regras obrigat'' @ [243] @ lit ''rias:'' @ NL @
     lit ''1) A primeira linha do arquivo deve ser: import pytest'' @ NL @
     lit ''2) Inclua import dos simbolos testados: from '' @ module_name @ lit '' import '' @
       (if functions \<noteq> [] then join (lit '', '') (map name functions) else lit ''*'') @ NL @
     lit ''3) Para cada fun'' @ [231, 227] @ lit ''o top-level listada abaixo gere AO MENOS 2 testes:'' @ NL @
     lit ''   - def test_<func>_success(): teste de comportamento t'' @ [237] @ lit ''pico/esperado'' @ NL @
     lit ''   - def test_<func>_failure(): teste de caso limite ou exce'' @ [231, 227] @ lit ''o esperada (use pytest.raises quando apropriado)'' @ NL @
     lit ''4) Use asserts claros (assert resultado == esperado) e evite chamadas de rede, tempo ou I/O.'' @ NL @
     lit ''5) Saia apenas com c'' @ [243] @ lit ''digo Python v'' @ [225] @ lit ''lido (sem explica'' @ [231, 245] @ lit ''es). '' @ NL @
     NL @
     lit ''M'' @ [243] @ lit ''dulo (conte'' @ [250] @ lit ''do):'' @ NL @
     NL @
     lit ''Fun'' @ [231, 245] @ lit ''es a serem testadas:'' @ NL"

definition human_prompt_tail :: "str \<Rightarrow> str" where
  "human_prompt_tail module_name =
     NL @
     NL @
     lit ''Gerar agora somente o conte'' @ [250] @ lit ''do do arquivo test_'' @ module_name @ lit ''.py'' @ NL"

definition build_prompts :: "str \<Rightarrow> str \<Rightarrow> func list \<Rightarrow> str \<times> str" where
  "build_prompts module_name module_code functions =
     (let system_prompt =
            lit ''Voc'' @ [234] @ lit '' '' @ [233] @ lit '' um assistente que produz arquivos de teste (pytest) para m'' @ [243] @ lit ''dulos Python. '' @
            lit ''Retorne APENAS o conte'' @ [250] @ lit ''do do arquivo de teste em Python (sem coment'' @ [225] @ lit ''rios, sem markdown, '' @
            lit ''sem explica'' @ [231, 227] @ lit ''o). O primeiro caractere do arquivo deve come'' @ [231] @ lit ''ar com '' @ [39] @ lit ''import pytest'' @ [39] @ lit ''.'';
          funcs_list_text =
            (if functions \<noteq> []
             then join NL (map (\<lambda>f. lit ''- '' @ name f @ lit ''('' @ join (lit '', '') (args f) @ lit '')'') functions)
             else lit ''(nenhuma fun'' @ [231, 227] @ lit ''o top-level encontrada)'');
          human_prompt =
            human_prompt_head module_name functions @ funcs_list_text @ human_prompt_tail module_name
      in (strip system_prompt, strip human_prompt))"

subsection \<open>The Model Client\<close>

definition missing_deployment :: error where
  "missing_deployment =
     RuntimeError (lit ''Defina AZURE_OPENAI_DEPLOYMENT no .env (nome do deployment).'')"

definition call_azure_llm :: "extern \<Rightarrow> str \<Rightarrow> str \<Rightarrow> world \<Rightarrow> (error + str) \<times> world" where
  "call_azure_llm ext system_prompt human_prompt w =
     (case environ w (lit ''AZURE_OPENAI_DEPLOYMENT'') of
        None \<Rightarrow> (Inl missing_deployment, w)
      | Some deployment \<Rightarrow>
          if deployment = [] then (Inl missing_deployment, w)
          else
            (let api_version =
                  (case environ w (lit ''AZURE_OPENAI_API_VERSION'') of
                     None \<Rightarrow> lit ''2023-06-01-preview''
                   | Some v \<Rightarrow> v);
                llm = \<lparr>azure_deployment = deployment, api_version = api_version,
                       temperature = 0, max_retries = 2\<rparr>;
                w1 = w\<lparr>trace := trace w @ [Client_created llm]\<rparr>
             in (case new_client ext llm of
                   Inl e \<Rightarrow> (Inl e, w1)
                 | Inr _ \<Rightarrow>
                     (let messages = [(lit ''system'', system_prompt), (lit ''human'', human_prompt)];
                          w2 = w1\<lparr>trace := trace w1 @ [Client_invoked llm messages]\<rparr>
                      in (invoke ext llm messages, w2)))))"

subsection \<open>The Output Guard\<close>

definition ensure_imports_and_header :: "str \<Rightarrow> str \<Rightarrow> func list \<Rightarrow> str" where
  "ensure_imports_and_header module_name generated_code functions =
     (let lines0 = splitlines generated_code;
          lines1 = (if lines0 = [] \<or> \<not> startswith (strip (hd lines0)) (lit ''import pytest'')
                    then list_insert 0 (lit ''import pytest'') lines0 else lines0);
          import_stmt =
            (if functions \<noteq> []
             then lit ''from '' @ module_name @ lit '' import '' @ join (lit '', '') (map name functions)
             else lit ''import '' @ module_name);
          lines2 = (if \<not> (\<exists>line \<in> set lines1.
                            startswith (strip line) (lit ''from '' @ module_name @ lit '' import'') \<or>
                            startswith (strip line) (lit ''import '' @ module_name))
                    then list_insert 1 import_stmt lines1 else lines1)
      in join NL lines2 @ NL)"

subsection \<open>The Writer and the Runner\<close>

definition write_test_file :: "extern \<Rightarrow> path \<Rightarrow> str \<Rightarrow> world \<Rightarrow> (error + unit) \<times> world" where
  "write_test_file ext output_path content w =
     (case write_text ext output_path content of
        Inl e \<Rightarrow> (Inl e, w)
      | Inr _ \<Rightarrow>
          (Inr (), w\<lparr>files := (files w)(output_path \<mapsto> content),
                      trace := trace w @ [File_written output_path]\<rparr>))"

definition run_pytest_for_file :: "extern \<Rightarrow> path \<Rightarrow> world \<Rightarrow> (error + int) \<times> world" where
  "run_pytest_for_file ext test_file_path w =
     (pytest ext (files w) test_file_path, w\<lparr>trace := trace w @ [Pytest_run test_file_path]\<rparr>)"

subsection \<open>The pipeline\<close>

definition rfind :: "nat \<Rightarrow> str \<Rightarrow> nat option" where
  \<comment> \<open>\<^verbatim>\<open>s.rfind(c)\<close>: the index of the last \<open>c\<close>; \<open>None\<close> stands for \<^verbatim>\<open>-1\<close>\<close>
  "rfind c s =
     (if c \<in> set s then Some (length s - 1 - length (takeWhile (\<lambda>x. x \<noteq> c) (rev s))) else None)"

definition stem :: "str \<Rightarrow> str" where
  \<comment> \<open>\<^verbatim>\<open>Path.stem\<close>: the name without its last suffix\<close>
  "stem nm =
     (case rfind 46 nm of
        None \<Rightarrow> nm
      | Some i \<Rightarrow> if 0 < i \<and> i < length nm - 1 then take i nm else nm)"

definition main :: "extern \<Rightarrow> path \<Rightarrow> bool \<Rightarrow> world \<Rightarrow> (error + unit) \<times> world" where
  \<comment> \<open>\<^verbatim>\<open>main()\<close> after \<^verbatim>\<open>parse_args\<close>: \<open>pyfile_path\<close> is \<^verbatim>\<open>Path(args.pyfile)\<close> and
      \<open>run\<close> is \<^verbatim>\<open>args.run\<close>\<close>
  "main ext pyfile_path run w =
     (if files w pyfile_path = None then (Inl FileNotFoundError, w)
      else
        (let module_name = stem (file_name pyfile_path) in
         (case extract_top_level_functions ext w pyfile_path of
            Inl e \<Rightarrow> (Inl e, w)
          | Inr (functions, code) \<Rightarrow>
              (let (system_prompt, human_prompt) = build_prompts module_name code functions in
               (case call_azure_llm ext system_prompt human_prompt w of
                  (Inl e, w1) \<Rightarrow> (Inl e, w1)
                | (Inr generated, w1) \<Rightarrow>
                    (let ensured = ensure_imports_and_header module_name generated functions;
                         dest = Path (parent pyfile_path) (lit ''test_'' @ module_name @ lit ''.py'')
                     in (case write_test_file ext dest ensured w1 of
                           (Inl e, w2) \<Rightarrow> (Inl e, w2)
                         | (Inr _, w2) \<Rightarrow>
                             (if run
                              then (case run_pytest_for_file ext dest w2 of
                                      (Inl e, w3) \<Rightarrow> (Inl e, w3)
                                    | (Inr rc, w3) \<Rightarrow> (Inr (), w3))
                              else (Inr (), w2)))))))))"

section \<open>Notions used in the statements\<close>

subsection \<open>Lines\<close>

text \<open>
  A text without line break; the text that ends each line of a list with one
  \<^verbatim>\<open>"\n"\<close>; a text whose only line breaks are newline characters.
\<close>

definition no_linebreak :: "str \<Rightarrow> bool" where
  "no_linebreak s \<longleftrightarrow> (\<forall>c \<in> set s. \<not> islinebreak c)"

definition unlines :: "str list \<Rightarrow> str" where
  "unlines ls = concat (map (\<lambda>l. l @ NL) ls)"

definition only_NL :: "str \<Rightarrow> bool" where
  "only_NL s \<longleftrightarrow> (\<forall>c \<in> set s. islinebreak c \<longrightarrow> c = 10)"

subsection \<open>The guard\<close>

text \<open>
  The guard's two tests and the statement it inserts, named so that the theorems can speak
  of them; \<open>guarded_lines\<close> is the list \<^verbatim>\<open>lines\<close> as it stands before the final
  \<^verbatim>\<open>join\<close>. A text passes the guard (\<open>guard_conformant\<close>) when it has a first line
  that passes the first test and a line that passes the second. A module name is in order
  when it is not empty and has no white space in it.
\<close>

definition pytest_header :: "str \<Rightarrow> bool" where
  "pytest_header line \<longleftrightarrow> startswith (strip line) (lit ''import pytest'')"

definition module_import :: "str \<Rightarrow> str \<Rightarrow> bool" where
  "module_import m line \<longleftrightarrow>
     startswith (strip line) (lit ''from '' @ m @ lit '' import'') \<or>
     startswith (strip line) (lit ''import '' @ m)"

definition import_stmt :: "str \<Rightarrow> func list \<Rightarrow> str" where
  "import_stmt m fs =
     (if fs \<noteq> [] then lit ''from '' @ m @ lit '' import '' @ join (lit '', '') (map name fs)
      else lit ''import '' @ m)"

definition guarded_lines :: "str \<Rightarrow> str \<Rightarrow> func list \<Rightarrow> str list" where
  "guarded_lines m g fs =
     (let ls = splitlines g;
          ls1 = (if ls \<noteq> [] \<and> pytest_header (hd ls) then ls else lit ''import pytest'' # ls)
      in if list_ex (module_import m) ls1 then ls1 else hd ls1 # import_stmt m fs # tl ls1)"

definition guard_conformant :: "str \<Rightarrow> str \<Rightarrow> bool" where
  "guard_conformant m g \<longleftrightarrow>
     splitlines g \<noteq> [] \<and> pytest_header (hd (splitlines g)) \<and>
     list_ex (module_import m) (splitlines g)"

definition module_name_ok :: "str \<Rightarrow> bool" where
  "module_name_ok m \<longleftrightarrow> m \<noteq> [] \<and> (\<forall>c \<in> set m. \<not> isspace c)"

subsection \<open>The extractor\<close>

text \<open>
  What a statement of the module body declares: whether it is a (synchronous)
  \<^verbatim>\<open>def\<close>, whether it is an \<^verbatim>\<open>async def\<close>, the name it defines, the names of its
  ordinary (positional-or-keyword) parameters, and the names of all the parameters it
  declares, in the order of the declaration.
\<close>

fun is_FunctionDef :: "stmt \<Rightarrow> bool" where
  "is_FunctionDef (FunctionDef nm a body) = True"
| "is_FunctionDef _ = False"

fun is_AsyncFunctionDef :: "stmt \<Rightarrow> bool" where
  "is_AsyncFunctionDef (AsyncFunctionDef nm a body) = True"
| "is_AsyncFunctionDef _ = False"

fun def_name :: "stmt \<Rightarrow> str" where
  "def_name (FunctionDef nm a body) = nm"
| "def_name (AsyncFunctionDef nm a body) = nm"
| "def_name (ClassDef nm body) = nm"
| "def_name _ = []"

fun ordinary_params :: "stmt \<Rightarrow> str list" where
  "ordinary_params (FunctionDef nm a body) = map arg (arguments.args a)"
| "ordinary_params (AsyncFunctionDef nm a body) = map arg (arguments.args a)"
| "ordinary_params _ = []"

definition declared_params_of :: "arguments \<Rightarrow> str list" where
  "declared_params_of a =
     map arg (posonlyargs a @ arguments.args a @ (case vararg a of None \<Rightarrow> [] | Some v \<Rightarrow> [v])
              @ kwonlyargs a @ (case kwarg a of None \<Rightarrow> [] | Some k \<Rightarrow> [k]))"

fun declared_params :: "stmt \<Rightarrow> str list" where
  "declared_params (FunctionDef nm a body) = declared_params_of a"
| "declared_params (AsyncFunctionDef nm a body) = declared_params_of a"
| "declared_params _ = []"

subsection \<open>The prompt\<close>

text \<open>
  The line that the human text gives to a signature, the text it has when there is none,
  and the list of functions as it stands in the human text.
\<close>

definition signature_line :: "func \<Rightarrow> str" where
  "signature_line f = lit ''- '' @ name f @ lit ''('' @ join (lit '', '') (args f) @ lit '')''"

definition no_functions_marker :: str where
  "no_functions_marker = lit ''(nenhuma fun'' @ [231, 227] @ lit ''o top-level encontrada)''"

definition funcs_list_text :: "func list \<Rightarrow> str" where
  "funcs_list_text fs = (if fs \<noteq> [] then join NL (map signature_line fs) else no_functions_marker)"

subsection \<open>The pipeline\<close>

text \<open>
  The paths written according to a trace, the path of the test file, and what it means
  that the stages before the writer succeed, with the signatures and the reply they
  produce.
\<close>

fun writes :: "event list \<Rightarrow> path list" where
  "writes [] = []"
| "writes (File_written q # t) = q # writes t"
| "writes (_ # t) = writes t"

definition dest_path :: "path \<Rightarrow> path" where
  "dest_path p = Path (parent p) (lit ''test_'' @ stem (file_name p) @ lit ''.py'')"

definition stages_succeed :: "extern \<Rightarrow> path \<Rightarrow> world \<Rightarrow> func list \<Rightarrow> str \<Rightarrow> bool" where
  "stages_succeed ext p w functions generated \<longleftrightarrow>
     files w p \<noteq> None \<and>
     (\<exists>code w1.
        extract_top_level_functions ext w p = Inr (functions, code) \<and>
        call_azure_llm ext (fst (build_prompts (stem (file_name p)) code functions))
          (snd (build_prompts (stem (file_name p)) code functions)) w = (Inr generated, w1))"

section \<open>Example inputs\<close>

text \<open>
  The signature of \<^verbatim>\<open>def add(a, b): return a + b\<close>, which has no docstring, and
  replies of the chat model for a module \<^verbatim>\<open>calc\<close> that defines it.
\<close>

definition add_sig :: func where
  "add_sig = \<lparr>name = lit ''add'', args = [lit ''a'', lit ''b''], doc = None\<rparr>"

definition conformant_reply :: str where
  \<comment> \<open>a reply that has both lines and ends with a newline\<close>
  "conformant_reply =
     lit ''import pytest'' @ NL @ lit ''from calc import add'' @ NL @ NL @
     lit ''def test_add_success():'' @ NL @ lit ''    assert add(1, 2) == 3'' @ NL"

definition unterminated_reply :: str where
  \<comment> \<open>a reply that has both lines and no newline at its end\<close>
  "unterminated_reply = lit ''import pytest'' @ NL @ lit ''from calc import add''"

definition fenced_reply :: str where
  \<comment> \<open>a reply wrapped in a markdown fence\<close>
  "fenced_reply =
     lit ''```python'' @ NL @ lit ''def test_add_success():'' @ NL @
     lit ''    assert add(1, 2) == 3'' @ NL @ lit ''```''"

definition local_import_reply :: str where
  \<comment> \<open>a reply that imports the function inside the test\<close>
  "local_import_reply =
     lit ''import pytest'' @ NL @ lit ''def test_add_success():'' @ NL @
     lit ''    from calc import add'' @ NL @ lit ''    assert add(1, 2) == 3'' @ NL"

definition bare_reply :: str where
  \<comment> \<open>a reply that starts with \<^verbatim>\<open>import pytest\<close> and does not import the module\<close>
  "bare_reply =
     lit ''import pytest'' @ NL @ NL @ lit ''def test_nothing():'' @ NL @ lit ''    pass'' @ NL"

definition bare_test_reply :: str where
  \<comment> \<open>a reply with a test and no import\<close>
  "bare_test_reply = lit ''def test_add_success():'' @ NL @ lit ''    assert add(1, 2) == 3'' @ NL"

text \<open>
  Sources with the trees that \<^verbatim>\<open>ast.parse\<close> gives for them; \<open>params\<close> is a parameter
  list that has ordinary parameters only.
\<close>

definition params :: "str list \<Rightarrow> arguments" where
  \<comment> \<open>a parameter list with ordinary parameters only\<close>
  "params ps = \<lparr>posonlyargs = [], args = map (\<lambda>p. \<lparr>arg = p\<rparr>) ps, vararg = None,
                kwonlyargs = [], kwarg = None\<rparr>"

definition add_source :: str where
  "add_source = lit ''def add(a, b): return a + b'' @ NL"

definition add_tree :: "stmt list" where
  "add_tree = [FunctionDef (lit ''add'') (params [lit ''a'', lit ''b'']) [Simple]]"

definition stack_source :: str where
  "stack_source =
     lit ''def add(a, b):'' @ NL @ lit ''    return a + b'' @ NL @
     lit ''class Stack:'' @ NL @ lit ''    def push(self, x):'' @ NL @
     lit ''        def check(y): pass'' @ NL @ lit ''        check(x)'' @ NL @
     lit ''if DEBUG:'' @ NL @ lit ''    def trace(msg): pass'' @ NL @
     lit ''async def fetch(url): pass'' @ NL"

definition stack_tree :: "stmt list" where
  "stack_tree =
     [FunctionDef (lit ''add'') (params [lit ''a'', lit ''b'']) [Simple],
      ClassDef (lit ''Stack'')
        [FunctionDef (lit ''push'') (params [lit ''self'', lit ''x''])
           [FunctionDef (lit ''check'') (params [lit ''y'']) [Simple], Expr Other_expr]],
      Compound [FunctionDef (lit ''trace'') (params [lit ''msg'']) [Simple]],
      AsyncFunctionDef (lit ''fetch'') (params [lit ''url'']) [Simple]]"

definition log_source :: str where
  "log_source = lit ''def log(msg, *values):'' @ NL @ lit ''    print(msg % values)'' @ NL"

definition log_tree :: "stmt list" where
  "log_tree =
     [FunctionDef (lit ''log'')
        \<lparr>posonlyargs = [], args = [\<lparr>arg = lit ''msg''\<rparr>], vararg = Some \<lparr>arg = lit ''values''\<rparr>,
         kwonlyargs = [], kwarg = None\<rparr>
        [Expr Other_expr]]"

definition fetch_source :: str where
  "fetch_source = lit ''import asyncio'' @ NL @ lit ''async def fetch(url): pass'' @ NL"

definition fetch_tree :: "stmt list" where
  "fetch_tree = [Simple, AsyncFunctionDef (lit ''fetch'') (params [lit ''url'']) [Simple]]"

text \<open>
  A run to evaluate the program on: the file \<^verbatim>\<open>proj/calc.py\<close> holds the given source,
  the deployment name is set, the parser returns the given tree for that source, docstrings
  are clean as they are, the chat model answers with the given reply, and writing and
  running succeed.
\<close>

definition calc_path :: path where
  "calc_path = Path (lit ''proj'') (lit ''calc.py'')"

definition example_world :: "str \<Rightarrow> world" where
  "example_world src =
     \<lparr>files = [calc_path \<mapsto> src],
      environ = [lit ''AZURE_OPENAI_DEPLOYMENT'' \<mapsto> lit ''gpt-4o''],
      trace = []\<rparr>"

definition example_extern :: "str \<Rightarrow> stmt list \<Rightarrow> str \<Rightarrow> extern" where
  "example_extern src tree reply =
     \<lparr>ast_parse = (\<lambda>s. if s = src then Inr tree else Inl SyntaxError),
      cleandoc = (\<lambda>d. d),
      new_client = (\<lambda>llm. Inr ()),
      invoke = (\<lambda>llm messages. Inr reply),
      write_text = (\<lambda>p content. Inr ()),
      pytest = (\<lambda>fs p. Inr 0)\<rparr>"

section \<open>Lines, joins and white space\<close>

lemma splitlines_Nil: "splitlines [] = []"
  by (simp add: splitlines.simps)

lemma splitlines_Cons: "splitlines (c # cs) = takeWhile (\<lambda>c. \<not> islinebreak c) (c # cs)
             # splitlines (skip_break (dropWhile (\<lambda>c. \<not> islinebreak c) (c # cs)))"
  by (subst splitlines.simps) simp

text \<open>Equations that evaluate the string functions on literals.\<close>

lemmas str_eval =
  splitlines_Nil splitlines_Cons lit_def NL_def islinebreak_def isspace_def strip_def
  lstrip_def rstrip_def startswith_def list_insert_def Let_def

lemma islinebreak_NL: "islinebreak 10"
  by (simp add: islinebreak_def)

lemma islinebreak_isspace: "islinebreak c \<Longrightarrow> isspace c"
  by (auto simp: islinebreak_def isspace_def)

lemma join_NL_unlines: "ls \<noteq> [] \<Longrightarrow> join NL ls @ NL = unlines ls"
  by (induction ls rule: induct_list012) (simp_all add: unlines_def)

lemma unlines_Cons: "unlines (l # ls) = l @ NL @ unlines ls"
  by (simp add: unlines_def)

lemma unlines_Nil: "unlines [] = []"
  by (simp add: unlines_def)

lemma unlines_append: "unlines (xs @ ys) = unlines xs @ unlines ys"
  by (simp add: unlines_def)

lemma unlines_ends: "ls \<noteq> [] \<Longrightarrow> \<exists>p. unlines ls = p @ NL"
  by (induction ls rule: rev_induct) (simp_all add: unlines_def)

lemma last_unlines: "ls \<noteq> [] \<Longrightarrow> unlines ls \<noteq> [] \<and> last (unlines ls) = 10"
  by (induction ls) (auto simp: unlines_def NL_def)

lemma only_NL_unlines: "\<forall>l \<in> set ls. no_linebreak l \<Longrightarrow> only_NL (unlines ls)"
  by (induction ls) (auto simp: unlines_def only_NL_def no_linebreak_def NL_def)

lemma no_linebreak_append: "no_linebreak (a @ b) \<longleftrightarrow> no_linebreak a \<and> no_linebreak b"
  by (auto simp: no_linebreak_def)

lemma no_linebreak_join:
  "no_linebreak sep \<Longrightarrow> \<forall>x \<in> set xs. no_linebreak x \<Longrightarrow> no_linebreak (join sep xs)"
  by (induction sep xs rule: join.induct) (simp_all add: no_linebreak_append, simp add: no_linebreak_def)

subsection \<open>Splitting into lines\<close>

lemma takeWhile_line:
  "no_linebreak l \<Longrightarrow> islinebreak c \<Longrightarrow> takeWhile (\<lambda>c. \<not> islinebreak c) (l @ c # r) = l"
  by (induction l) (simp_all add: no_linebreak_def)

lemma dropWhile_line:
  "no_linebreak l \<Longrightarrow> islinebreak c \<Longrightarrow> dropWhile (\<lambda>c. \<not> islinebreak c) (l @ c # r) = c # r"
  by (induction l) (simp_all add: no_linebreak_def)

lemma skip_break_NL: "skip_break (10 # r) = r"
  by (cases r) simp_all

lemma skip_break_append: "r \<noteq> [] \<Longrightarrow> skip_break (c # r @ y) = skip_break (c # r) @ y"
  by (cases r) simp_all

lemma splitlines_break:
  assumes "no_linebreak l" "islinebreak c"
  shows "splitlines (l @ c # r) = l # splitlines (skip_break (c # r))"
  by (subst splitlines.simps) (simp add: takeWhile_line [OF assms] dropWhile_line [OF assms])

lemma splitlines_line: 
  assumes "no_linebreak l"
  shows "splitlines (l @ NL @ r) = l # splitlines r"
proof -
  have "splitlines (l @ 10 # r) = l # splitlines (skip_break (10 # r))"
    by (subst splitlines.simps) (simp add: takeWhile_line [OF assms islinebreak_NL] dropWhile_line [OF assms islinebreak_NL])
  then show ?thesis by (simp add: NL_def skip_break_NL)
qed

lemma splitlines_single: "no_linebreak l \<Longrightarrow> splitlines (l @ NL) = [l]"
  using splitlines_line [of l "[]"] by (simp add: splitlines_Nil)

lemma splitlines_first:
  "no_linebreak l0 \<Longrightarrow> splitlines (unlines (l0 # rest)) = l0 # splitlines (unlines rest)"
  by (simp add: unlines_Cons splitlines_line)

lemma splitlines_prefix:
  assumes "no_linebreak p" "p \<noteq> []"
  shows "\<exists>z rest. splitlines (p @ x) = (p @ z) # rest"
proof -
  have "takeWhile (\<lambda>c. \<not> islinebreak c) (p @ x) = p @ takeWhile (\<lambda>c. \<not> islinebreak c) x"
    using assms(1) by (simp add: no_linebreak_def)
  with assms(2) show ?thesis
    by (subst splitlines.simps) simp
qed

lemma splitlines_unlines:
  "\<forall>l \<in> set ls. no_linebreak l \<Longrightarrow> splitlines (unlines ls) = ls"
  by (induction ls) (simp_all add: unlines_Nil unlines_Cons splitlines_Nil splitlines_line)

lemma splitlines_no_linebreak: "l \<in> set (splitlines s) \<Longrightarrow> no_linebreak l"
proof (induction s rule: splitlines.induct)
  case (1 s)
  show ?case
  proof (cases "s = []")
    case True
    with "1.prems" show ?thesis by (simp add: splitlines_Nil)
  next
    case False
    from "1.prems" False
    have "l = takeWhile (\<lambda>c. \<not> islinebreak c) s \<or>
          l \<in> set (splitlines (skip_break (dropWhile (\<lambda>c. \<not> islinebreak c) s)))"
      by (subst (asm) splitlines.simps) simp
    then show ?thesis
    proof
      assume "l = takeWhile (\<lambda>c. \<not> islinebreak c) s"
      then show ?thesis by (auto simp: no_linebreak_def dest: set_takeWhileD)
    next
      assume "l \<in> set (splitlines (skip_break (dropWhile (\<lambda>c. \<not> islinebreak c) s)))"
      with "1.IH" False show ?thesis by simp
    qed
  qed
qed

lemma unlines_splitlines:
  "only_NL s \<Longrightarrow> unlines (splitlines s) = (if s = [] \<or> last s = 10 then s else s @ NL)"
proof (induction s rule: splitlines.induct)
  case (1 s)
  let ?P = "\<lambda>c. \<not> islinebreak c"
  show ?case
  proof (cases "s = []")
    case True
    then show ?thesis by (simp add: splitlines_Nil unlines_Nil)
  next
    case False
    have split: "s = takeWhile ?P s @ dropWhile ?P s" by simp
    have sl: "unlines (splitlines s) = takeWhile ?P s @ NL @ unlines (splitlines (skip_break (dropWhile ?P s)))"
      using False by (subst splitlines.simps) (simp add: unlines_Cons)
    show ?thesis
    proof (cases "dropWhile ?P s")
      case Nil
      then have tw: "takeWhile ?P s = s" using split by simp
      from Nil have "\<forall>c \<in> set s. \<not> islinebreak c" by simp
      with False have "last s \<noteq> 10" using islinebreak_NL last_in_set by metis
      with sl Nil tw False show ?thesis by (simp add: splitlines_Nil unlines_Nil)
    next
      case (Cons c r)
      then have "islinebreak c" using hd_dropWhile [of ?P s] by auto
      moreover have "c \<in> set s" using Cons split by (metis in_set_conv_decomp)
      ultimately have c: "c = 10" using "1.prems" by (simp add: only_NL_def)
      have s_eq: "s = takeWhile ?P s @ 10 # r" using split Cons c by simp
      have "set r \<subseteq> set s" using s_eq by (metis set_subset_Cons set_append le_supI2 order_trans subset_refl)
      then have "only_NL r" using "1.prems" by (auto simp: only_NL_def)
      with "1.IH" False Cons c have IH: "unlines (splitlines r) = (if r = [] \<or> last r = 10 then r else r @ NL)"
        by (simp add: skip_break_NL)
      have "unlines (splitlines s) = takeWhile ?P s @ NL @ unlines (splitlines r)"
        using sl Cons c by (simp add: skip_break_NL)
      with IH have "unlines (splitlines s) = takeWhile ?P s @ NL @ (if r = [] \<or> last r = 10 then r else r @ NL)"
        by simp
      moreover have "last s = (if r = [] then 10 else last r)" by (subst s_eq) simp
      ultimately show ?thesis using False by (subst (3 4) s_eq) (auto simp: NL_def)
    qed
  qed
qed

lemma splitlines_append_NL: "splitlines (a @ NL @ b) = splitlines (a @ NL) @ splitlines b"
proof (induction a rule: splitlines.induct)
  case (1 a)
  let ?P = "\<lambda>c. \<not> islinebreak c"
  show ?case
  proof (cases "dropWhile ?P a")
    case Nil
    then have "no_linebreak a" by (simp add: no_linebreak_def)
    then have "splitlines (a @ NL @ b) = a # splitlines b" "splitlines (a @ NL @ []) = a # splitlines []"
      by (rule splitlines_line)+
    then show ?thesis by (simp add: splitlines_Nil)
  next
    case (Cons c r)
    then have ne: "a \<noteq> []" by auto
    from Cons have brk: "islinebreak c" using hd_dropWhile [of ?P a] by auto
    have nb: "no_linebreak (takeWhile ?P a)"
      by (auto simp: no_linebreak_def dest: set_takeWhileD)
    have a_eq: "a = takeWhile ?P a @ c # r"
      using Cons takeWhile_dropWhile_id [of ?P a] by simp
    have lhs: "splitlines (a @ NL @ b) = takeWhile ?P a # splitlines (skip_break (c # r @ NL @ b))"
      using splitlines_break [OF nb brk, of "r @ NL @ b"] a_eq by (metis append_Cons append_assoc)
    have rhs: "splitlines (a @ NL) = takeWhile ?P a # splitlines (skip_break (c # r @ NL))"
      using splitlines_break [OF nb brk, of "r @ NL"] a_eq by (metis append_Cons append_assoc)
    show ?thesis
    proof (cases "r = []")
      case True
      have "no_linebreak []" by (simp add: no_linebreak_def)
      then have "splitlines ([] @ NL @ b) = [] # splitlines b"
                "splitlines ([] @ NL @ []) = [] # splitlines []"
        by (rule splitlines_line)+
      then have "splitlines (NL @ b) = [] # splitlines b" "splitlines NL = [[]]"
        by (simp_all add: splitlines_Nil)
      with lhs rhs True show ?thesis
        by (simp add: NL_def splitlines_Nil)
    next
      case False
      have "skip_break (c # r @ NL @ b) = skip_break (c # r) @ NL @ b"
           "skip_break (c # r @ NL) = skip_break (c # r) @ NL"
        using False by (rule skip_break_append)+
      moreover have "splitlines (skip_break (c # r) @ NL @ b)
                     = splitlines (skip_break (c # r) @ NL) @ splitlines b"
        using "1.IH" ne Cons by simp
      ultimately show ?thesis using lhs rhs by simp
    qed
  qed
qed

lemma splitlines_unlines_concat:
  "splitlines (unlines L) = concat (map (\<lambda>l. splitlines (l @ NL)) L)"
proof (induction L)
  case Nil
  show ?case by (simp add: unlines_Nil splitlines_Nil)
next
  case (Cons l L)
  have "splitlines (unlines (l # L)) = splitlines (l @ NL) @ splitlines (unlines L)"
    by (simp add: unlines_Cons splitlines_append_NL)
  with Cons show ?case by simp
qed

lemma subseq_splitlines_unlines:
  "subseq xs L \<Longrightarrow> \<forall>l \<in> set xs. no_linebreak l \<Longrightarrow>
   subseq xs (concat (map (\<lambda>l. splitlines (l @ NL)) L))"
proof (induction rule: list_emb.induct)
  case (list_emb_Nil ys)
  show ?case by simp
next
  case (list_emb_Cons xs ys y)
  then show ?case by (simp add: subseq_drop_many)
next
  case (list_emb_Cons2 x y xs ys)
  then show ?case by (simp add: splitlines_single)
qed

lemma line_in_join:
  assumes "x \<in> set xs"
  shows "\<exists>pre post. NL @ join NL xs @ NL = pre @ NL @ x @ NL @ post"
proof -
  from assms obtain as bs where xs: "xs = as @ x # bs"
    by (auto simp: in_set_conv_decomp)
  then have "NL @ join NL xs @ NL = NL @ unlines as @ x @ NL @ unlines bs"
    by (simp add: join_NL_unlines unlines_append unlines_Cons)
  moreover have "\<exists>pre. NL @ unlines as = pre @ NL"
  proof (cases "as = []")
    case True
    then show ?thesis by (simp add: unlines_Nil)
  next
    case False
    from unlines_ends [OF this] obtain p where "unlines as = p @ NL" ..
    then have "NL @ unlines as = (NL @ p) @ NL" by simp
    then show ?thesis ..
  qed
  ultimately obtain pre where "NL @ join NL xs @ NL = pre @ NL @ x @ NL @ unlines bs"
    by (metis append_assoc)
  then show ?thesis by blast
qed

subsection \<open>Stripping\<close>

lemma startswith_append: "startswith (p @ z) p"
  by (simp add: startswith_def)

lemma lstrip_keep: "p \<noteq> [] \<Longrightarrow> \<not> isspace (hd p) \<Longrightarrow> lstrip (p @ y) = p @ y"
  by (cases p) (simp_all add: lstrip_def)

lemma dropWhile_append_keep:
  "dropWhile P b = b \<Longrightarrow> dropWhile P (a @ b) = dropWhile P a @ b"
  by (induction a) auto

lemma rstrip_keep: 
  assumes "p \<noteq> []" "\<not> isspace (last p)"
  shows "\<exists>z. rstrip (p @ y) = p @ z"
proof -
  from assms have "dropWhile isspace (rev p) = rev p"
    by (cases p rule: rev_cases) simp_all
  then have "dropWhile isspace (rev y @ rev p) = dropWhile isspace (rev y) @ rev p"
    by (rule dropWhile_append_keep)
  then have "rstrip (p @ y) = p @ rev (dropWhile isspace (rev y))"
    by (simp add: rstrip_def)
  then show ?thesis ..
qed

lemma startswith_strip:
  assumes "p \<noteq> []" "\<not> isspace (hd p)" "\<not> isspace (last p)"
  shows "startswith (strip (p @ y)) p"
proof -
  from rstrip_keep [OF assms(1,3)] obtain z where "rstrip (p @ y) = p @ z" ..
  with assms show ?thesis by (simp add: strip_def lstrip_keep startswith_append)
qed

lemma strip_between:
  assumes "\<not> isspace c" "\<not> isspace d"
  shows "strip ((NL @ c # a) @ F @ (b @ [d] @ NL)) = (c # a) @ F @ b @ [d]"
proof -
  have nl: "isspace 10" by (simp add: isspace_def)
  have "lstrip ((NL @ c # a) @ F @ (b @ [d] @ NL)) = (c # a) @ F @ b @ [d] @ NL"
    using assms(1) nl by (simp add: lstrip_def NL_def)
  moreover have "rstrip ((c # a) @ F @ b @ [d] @ NL) = (c # a) @ F @ b @ [d]"
    using assms(2) nl unfolding rstrip_def NL_def by simp
  ultimately show ?thesis by (simp add: strip_def)
qed

section \<open>The Output Guard\<close>

subsection \<open>The lines the guard builds\<close>

lemma ensure_unlines: "ensure_imports_and_header m g fs = unlines (guarded_lines m g fs)"
proof -
  define ls1 where "ls1 = (if splitlines g \<noteq> [] \<and> pytest_header (hd (splitlines g))
                           then splitlines g else lit ''import pytest'' # splitlines g)"
  have ne: "ls1 \<noteq> []"
    by (simp add: ls1_def)
  have l1: "(if splitlines g = [] \<or> \<not> startswith (strip (hd (splitlines g))) (lit ''import pytest'')
             then list_insert 0 (lit ''import pytest'') (splitlines g) else splitlines g) = ls1"
    by (simp add: ls1_def pytest_header_def list_insert_def)
  have ex: "(\<exists>line \<in> set ls1. startswith (strip line) (lit ''from '' @ m @ lit '' import'') \<or>
                               startswith (strip line) (lit ''import '' @ m))
            = list_ex (module_import m) ls1"
    by (simp add: list_ex_iff module_import_def)
  have "ensure_imports_and_header m g fs =
          join NL (if \<not> list_ex (module_import m) ls1
                   then list_insert 1 (import_stmt m fs) ls1 else ls1) @ NL"
    unfolding ensure_imports_and_header_def Let_def l1 ex import_stmt_def ..
  also have "\<dots> = unlines (if list_ex (module_import m) ls1 then ls1
                             else hd ls1 # import_stmt m fs # tl ls1)"
    using ne by (cases ls1) (simp_all add: list_insert_def join_NL_unlines)
  also have "\<dots> = unlines (guarded_lines m g fs)"
    unfolding guarded_lines_def Let_def ls1_def ..
  finally show ?thesis .
qed

lemma guarded_lines_nonempty: "guarded_lines m g fs \<noteq> []"
  by (simp add: guarded_lines_def Let_def)

lemma ensure_join: "ensure_imports_and_header m g fs = join NL (guarded_lines m g fs) @ NL"
  by (simp add: ensure_unlines join_NL_unlines guarded_lines_nonempty)

lemma guarded_lines_shape:
  "guarded_lines m g fs = splitlines g \<or>
   guarded_lines m g fs = lit ''import pytest'' # splitlines g \<or>
   (splitlines g \<noteq> [] \<and>
    guarded_lines m g fs = hd (splitlines g) # import_stmt m fs # tl (splitlines g)) \<or>
   guarded_lines m g fs = lit ''import pytest'' # import_stmt m fs # splitlines g"
  by (simp add: guarded_lines_def Let_def)

lemma subseq_guarded_lines: "subseq (splitlines g) (guarded_lines m g fs)"
proof -
  have mid: "subseq ls (hd ls # x # tl ls)" if "ls \<noteq> []" for x :: str and ls
    using that by (cases ls) (simp_all add: subseq_Cons')
  have one: "subseq ls (x # ls)" for x :: str and ls
    using subseq_drop_many [of ls ls "[x]"] by simp
  have two: "subseq ls (x # y # ls)" for x y :: str and ls
    using subseq_drop_many [of ls ls "[x, y]"] by simp
  from guarded_lines_shape [of m g fs] show ?thesis
    by (elim disjE conjE) (simp_all add: mid one two)
qed

lemma subseq_ensure: "subseq (splitlines g) (splitlines (ensure_imports_and_header m g fs))"
  unfolding ensure_unlines splitlines_unlines_concat
  by (rule subseq_splitlines_unlines [OF subseq_guarded_lines]) (simp add: splitlines_no_linebreak)

lemma pytest_header_literal: "pytest_header (lit ''import pytest'')"
  by (simp add: pytest_header_def str_eval)

lemma no_linebreak_literal: "no_linebreak (lit ''import pytest'')"
  by (simp add: no_linebreak_def str_eval)

lemma guarded_lines_conformant:
  "guard_conformant m g \<Longrightarrow> guarded_lines m g fs = splitlines g"
  by (simp add: guard_conformant_def guarded_lines_def Let_def)

lemma guarded_lines_hd:
  "\<exists>l0 rest. guarded_lines m g fs = l0 # rest \<and> no_linebreak l0 \<and> pytest_header l0"
proof (cases "splitlines g \<noteq> [] \<and> pytest_header (hd (splitlines g))")
  case True
  then obtain l0 rest where ls: "splitlines g = l0 # rest"
    by (cases "splitlines g") auto
  then have "no_linebreak l0"
    using splitlines_no_linebreak [of l0 g] by simp
  with True ls show ?thesis
    by (simp add: guarded_lines_def Let_def)
next
  case False
  then show ?thesis
    by (auto simp: guarded_lines_def Let_def pytest_header_literal no_linebreak_literal)
qed

lemma module_name_ok_no_linebreak: "module_name_ok m \<Longrightarrow> no_linebreak m"
  by (auto simp: module_name_ok_def no_linebreak_def dest: islinebreak_isspace)

lemma no_linebreak_import_stmt:
  assumes "module_name_ok m" "\<forall>f \<in> set fs. no_linebreak (name f)"
  shows "no_linebreak (import_stmt m fs)"
proof -
  have "no_linebreak (lit ''from '')" "no_linebreak (lit '' import '')"
       "no_linebreak (lit '', '')" "no_linebreak (lit ''import '')"
    by (simp_all add: no_linebreak_def str_eval)
  moreover have "no_linebreak (join (lit '', '') (map name fs))"
    using assms(2) \<open>no_linebreak (lit '', '')\<close> by (intro no_linebreak_join) simp_all
  ultimately show ?thesis
    using module_name_ok_no_linebreak [OF assms(1)]
    by (simp add: import_stmt_def no_linebreak_append)
qed

text \<open>A line that begins with one of the two prefixes passes the guard's test.\<close>

lemma module_import_from:
  "module_import m ((lit ''from '' @ m @ lit '' import'') @ y)"
proof -
  have "startswith (strip ((lit ''from '' @ m @ lit '' import'') @ y)) (lit ''from '' @ m @ lit '' import'')"
    by (rule startswith_strip) (simp_all add: str_eval)
  then show ?thesis by (simp add: module_import_def)
qed

lemma module_import_plain:
  assumes "module_name_ok m"
  shows "module_import m ((lit ''import '' @ m) @ y)"
proof -
  from assms have "m \<noteq> []" "\<not> isspace (last m)"
    by (simp_all add: module_name_ok_def)
  then have "startswith (strip ((lit ''import '' @ m) @ y)) (lit ''import '' @ m)"
    by (intro startswith_strip) (simp_all add: str_eval)
  then show ?thesis by (simp add: module_import_def)
qed

lemma import_stmt_prefix:
  assumes "module_name_ok m"
  shows "\<exists>p y. import_stmt m fs = p @ y \<and> p \<noteq> [] \<and> no_linebreak p \<and> (\<forall>z. module_import m (p @ z))"
proof (cases "fs = []")
  case True
  have "no_linebreak (lit ''import '' @ m)"
    using module_name_ok_no_linebreak [OF assms] by (simp add: no_linebreak_append, simp add: no_linebreak_def str_eval)
  moreover have "import_stmt m fs = (lit ''import '' @ m) @ []"
    using True by (simp add: import_stmt_def)
  moreover have "lit ''import '' @ m \<noteq> []" by (simp add: lit_def)
  ultimately show ?thesis using module_import_plain [OF assms] by blast
next
  case False
  have "no_linebreak (lit ''from '' @ m @ lit '' import'')"
    using module_name_ok_no_linebreak [OF assms] by (simp add: no_linebreak_append, simp add: no_linebreak_def str_eval)
  moreover have "import_stmt m fs = (lit ''from '' @ m @ lit '' import'') @ (lit '' '' @ join (lit '', '') (map name fs))"
    using False by (simp add: import_stmt_def lit_def)
  moreover have "lit ''from '' @ m @ lit '' import'' \<noteq> []" by (simp add: lit_def)
  ultimately show ?thesis using module_import_from by blast
qed

lemma list_ex_splitlines_guarded:
  assumes ok: "module_name_ok m"
  shows "list_ex (module_import m) (splitlines (unlines (guarded_lines m g fs)))"
proof -
  define ls1 where "ls1 = (if splitlines g \<noteq> [] \<and> pytest_header (hd (splitlines g))
                           then splitlines g else lit ''import pytest'' # splitlines g)"
  have nb1: "\<forall>l \<in> set ls1. no_linebreak l"
    by (auto simp: ls1_def no_linebreak_literal splitlines_no_linebreak)
  have ne: "ls1 \<noteq> []" by (simp add: ls1_def)
  have gl: "guarded_lines m g fs =
              (if list_ex (module_import m) ls1 then ls1 else hd ls1 # import_stmt m fs # tl ls1)"
    unfolding guarded_lines_def Let_def ls1_def ..
  show ?thesis
  proof (cases "list_ex (module_import m) ls1")
    case True
    with gl nb1 show ?thesis by (simp add: splitlines_unlines)
  next
    case False
    from import_stmt_prefix [OF ok, of fs] obtain p y where
      p: "import_stmt m fs = p @ y" "p \<noteq> []" "no_linebreak p" "\<forall>z. module_import m (p @ z)"
      by blast
    from splitlines_prefix [OF p(3) p(2), of "y @ NL @ unlines (tl ls1)"] obtain z rest where
      "splitlines (p @ y @ NL @ unlines (tl ls1)) = (p @ z) # rest" by blast
    then have "splitlines (unlines (import_stmt m fs # tl ls1)) = (p @ z) # rest"
      using p(1) by (simp add: unlines_Cons)
    moreover have "no_linebreak (hd ls1)" using nb1 ne by simp
    ultimately have "splitlines (unlines (guarded_lines m g fs)) = hd ls1 # (p @ z) # rest"
      using gl False by (simp add: splitlines_first)
    with p(4) show ?thesis by simp
  qed
qed

lemma guard_first_line:
  "\<exists>l0 rest. splitlines (ensure_imports_and_header m g fs) = l0 # rest \<and> pytest_header l0"
proof -
  from guarded_lines_hd [of m g fs] obtain l0 rest where
    "guarded_lines m g fs = l0 # rest" "no_linebreak l0" "pytest_header l0" by blast
  then show ?thesis
    by (simp add: ensure_unlines splitlines_first)
qed

lemma guard_first_line_is:
  "hd (splitlines (ensure_imports_and_header m g fs))
   = (if splitlines g \<noteq> [] \<and> pytest_header (hd (splitlines g))
      then hd (splitlines g) else lit ''import pytest'')"
proof -
  from guarded_lines_hd [of m g fs] obtain l0 rest where
    gl: "guarded_lines m g fs = l0 # rest" and nb: "no_linebreak l0" by blast
  have "hd (guarded_lines m g fs)
        = (if splitlines g \<noteq> [] \<and> pytest_header (hd (splitlines g))
           then hd (splitlines g) else lit ''import pytest'')"
    by (simp add: guarded_lines_def Let_def)
  moreover have "hd (splitlines (ensure_imports_and_header m g fs)) = l0"
    using gl nb by (simp add: ensure_unlines splitlines_first)
  ultimately show ?thesis using gl by simp
qed

lemma guard_conformant_result:
  "module_name_ok m \<Longrightarrow> guard_conformant m (ensure_imports_and_header m g fs)"
  using guard_first_line [of m g fs] list_ex_splitlines_guarded [of m g fs]
  by (auto simp: guard_conformant_def ensure_unlines)

lemma guarded_lines_no_linebreak:
  assumes "module_name_ok m" "\<forall>f \<in> set fs. no_linebreak (name f)"
  shows "\<forall>l \<in> set (guarded_lines m g fs). no_linebreak l"
proof -
  have nb: "\<forall>l \<in> set (splitlines g). no_linebreak l"
    by (simp add: splitlines_no_linebreak)
  then have "\<forall>l \<in> set (tl (splitlines g)). no_linebreak l"
            "splitlines g \<noteq> [] \<longrightarrow> no_linebreak (hd (splitlines g))"
    by (cases "splitlines g"; simp)+
  with nb guarded_lines_shape [of m g fs] no_linebreak_import_stmt [OF assms] no_linebreak_literal
  show ?thesis by (elim disjE conjE) simp_all
qed

lemma guard_fixed_point:
  assumes "guard_conformant m g" "only_NL g" "last g = 10"
  shows "ensure_imports_and_header m g fs = g"
proof -
  have "ensure_imports_and_header m g fs = unlines (splitlines g)"
    using assms(1) by (simp add: ensure_unlines guarded_lines_conformant)
  with assms(2,3) show ?thesis by (simp add: unlines_splitlines)
qed

lemma guard_appends_newline:
  assumes "guard_conformant m g" "only_NL g" "last g \<noteq> 10"
  shows "ensure_imports_and_header m g fs = g @ NL"
proof -
  from assms(1) have "g \<noteq> []" by (auto simp: guard_conformant_def splitlines_Nil)
  moreover have "ensure_imports_and_header m g fs = unlines (splitlines g)"
    using assms(1) by (simp add: ensure_unlines guarded_lines_conformant)
  ultimately show ?thesis using assms(2,3) by (simp add: unlines_splitlines)
qed

lemma guard_twice:
  assumes "module_name_ok m" "\<forall>f \<in> set fs. no_linebreak (name f)"
  shows "ensure_imports_and_header m (ensure_imports_and_header m g fs) fs
         = ensure_imports_and_header m g fs"
proof (rule guard_fixed_point)
  show "guard_conformant m (ensure_imports_and_header m g fs)"
    by (rule guard_conformant_result [OF assms(1)])
  show "only_NL (ensure_imports_and_header m g fs)"
    unfolding ensure_unlines by (rule only_NL_unlines [OF guarded_lines_no_linebreak [OF assms]])
  show "last (ensure_imports_and_header m g fs) = 10"
    unfolding ensure_unlines using last_unlines [OF guarded_lines_nonempty] by blast
qed

lemma guard_ends_with_newline:
  "ensure_imports_and_header m g fs \<noteq> [] \<and> last (ensure_imports_and_header m g fs) = 10"
  unfolding ensure_unlines using last_unlines [OF guarded_lines_nonempty] by blast

lemma guard_inserts_second:
  assumes "\<not> list_ex (module_import m) (splitlines g)" "\<not> module_import m (lit ''import pytest'')"
  shows "ensure_imports_and_header m g fs =
           (if splitlines g \<noteq> [] \<and> pytest_header (hd (splitlines g))
            then hd (splitlines g) @ NL @ import_stmt m fs @ NL @ unlines (tl (splitlines g))
            else lit ''import pytest'' @ NL @ import_stmt m fs @ NL @ unlines (splitlines g))"
  using assms by (simp add: ensure_unlines guarded_lines_def Let_def unlines_Cons)

lemmas guard_eval =
  ensure_imports_and_header_def guard_conformant_def pytest_header_def module_import_def
  module_name_ok_def only_NL_def no_linebreak_def import_stmt_def unlines_def add_sig_def

subsection \<open>The two lines it establishes\<close>

lemma header_trailing_space:
  assumes "rstrip l = lit ''import pytest''"
  shows "pytest_header l"
proof -
  let ?P = "lit ''import pytest''"
  have "rev (dropWhile isspace (rev l)) = ?P"
    using assms by (simp add: rstrip_def)
  then have "dropWhile isspace (rev l) = rev ?P"
    by (simp add: rev_swap)
  moreover have "rev l = takeWhile isspace (rev l) @ dropWhile isspace (rev l)"
    by simp
  ultimately have "rev l = takeWhile isspace (rev l) @ rev ?P"
    by simp
  then have "rev (rev l) = rev (takeWhile isspace (rev l) @ rev ?P)"
    by (rule arg_cong)
  then have l: "l = ?P @ rev (takeWhile isspace (rev l))"
    by simp
  have "lstrip (?P @ rev (takeWhile isspace (rev l))) = ?P @ rev (takeWhile isspace (rev l))"
    by (rule lstrip_keep) (simp_all add: lit_def isspace_def)
  with l have "lstrip l = l"
    by simp
  with assms have "strip l = ?P"
    by (simp add: strip_def)
  then show ?thesis
    by (simp add: pytest_header_def startswith_def)
qed

text \<open>
  C1, as stated, fails. The guard tests the lines stripped of the white space around them,
  so an import of the module that is indented inside a test function counts as the
  module's import: the reply is returned as it is, its first line is \<^verbatim>\<open>import pytest\<close>,
  and no line of the result starts with \<^verbatim>\<open>from calc import\<close> or \<^verbatim>\<open>import calc\<close>.
\<close>

theorem guard_import_line_counterexample:
  "ensure_imports_and_header (lit ''calc'') local_import_reply [add_sig] = local_import_reply \<and>
   hd (splitlines (ensure_imports_and_header (lit ''calc'') local_import_reply [add_sig]))
     = lit ''import pytest'' \<and>
   \<not> list_ex (\<lambda>line. startswith line (lit ''from calc import'') \<or>
                     startswith line (lit ''import calc''))
       (splitlines (ensure_imports_and_header (lit ''calc'') local_import_reply [add_sig]))"
  by (simp add: local_import_reply_def guard_eval str_eval)

text \<open>
  C1, amended. For every input text and signature list the result has a first line. It is
  exactly \<^verbatim>\<open>import pytest\<close> when the input has no line or its first line, stripped of
  the white space around it, does not start with \<^verbatim>\<open>import pytest\<close>: the guard puts the
  line there. It is the first line of the input, kept as it is, when that line is
  \<^verbatim>\<open>import pytest\<close> with nothing but white space after it. For a module name that is
  not empty and has no white space, some line of the result, stripped of the white space
  around it, starts with \<^verbatim>\<open>from <module> import\<close> or \<^verbatim>\<open>import <module>\<close>.
\<close>

theorem guard_establishes_imports:
  "splitlines (ensure_imports_and_header m g fs) \<noteq> [] \<and>
   (splitlines g = [] \<or> \<not> pytest_header (hd (splitlines g)) \<longrightarrow>
      hd (splitlines (ensure_imports_and_header m g fs)) = lit ''import pytest'') \<and>
   (splitlines g \<noteq> [] \<and> rstrip (hd (splitlines g)) = lit ''import pytest'' \<longrightarrow>
      hd (splitlines (ensure_imports_and_header m g fs)) = hd (splitlines g)) \<and>
   (module_name_ok m \<longrightarrow>
      list_ex (module_import m) (splitlines (ensure_imports_and_header m g fs)))"
proof -
  from guard_first_line [of m g fs]
  have ne: "splitlines (ensure_imports_and_header m g fs) \<noteq> []"
    by auto
  have ins: "hd (splitlines (ensure_imports_and_header m g fs)) = lit ''import pytest''"
    if "splitlines g = [] \<or> \<not> pytest_header (hd (splitlines g))"
    using that guard_first_line_is [of m g fs] by auto
  have keep: "hd (splitlines (ensure_imports_and_header m g fs)) = hd (splitlines g)"
    if "splitlines g \<noteq> []" "rstrip (hd (splitlines g)) = lit ''import pytest''"
    using that header_trailing_space [of "hd (splitlines g)"] guard_first_line_is [of m g fs]
    by simp
  have imp: "list_ex (module_import m) (splitlines (ensure_imports_and_header m g fs))"
    if "module_name_ok m"
    using that list_ex_splitlines_guarded [of m g fs] by (simp add: ensure_unlines)
  from ne ins keep imp show ?thesis
    by blast
qed

theorem guard_establishes_imports_witness:
  "module_name_ok (lit ''calc'') \<and>
   hd (splitlines (ensure_imports_and_header (lit ''calc'') fenced_reply [add_sig]))
     = lit ''import pytest'' \<and>
   list_ex (module_import (lit ''calc''))
     (splitlines (ensure_imports_and_header (lit ''calc'') fenced_reply [add_sig])) \<and>
   hd (splitlines (ensure_imports_and_header (lit ''calc'') [] [])) = lit ''import pytest'' \<and>
   list_ex (module_import (lit ''calc''))
     (splitlines (ensure_imports_and_header (lit ''calc'') [] [])) \<and>
   hd (splitlines (ensure_imports_and_header (lit ''calc'')
         (lit ''import pytest  '' @ NL @ lit ''from calc import add'' @ NL) [add_sig]))
     = lit ''import pytest  ''"
proof -
  let ?spaced = "lit ''import pytest  '' @ NL @ lit ''from calc import add'' @ NL"
  have ok: "module_name_ok (lit ''calc'')"
    by (simp add: module_name_ok_def str_eval)
  have fence: "splitlines fenced_reply = [] \<or> \<not> pytest_header (hd (splitlines fenced_reply))"
    by (simp add: fenced_reply_def pytest_header_def str_eval)
  have empty: "splitlines ([] :: str) = [] \<or> \<not> pytest_header (hd (splitlines []))"
    by (simp add: splitlines_Nil)
  have hd_spaced: "hd (splitlines ?spaced) = lit ''import pytest  ''"
    by (simp add: str_eval)
  have spaced: "splitlines ?spaced \<noteq> [] \<and> rstrip (hd (splitlines ?spaced)) = lit ''import pytest''"
    by (simp add: str_eval)
  from ok fence guard_establishes_imports [of "lit ''calc''" fenced_reply "[add_sig]"]
  have "hd (splitlines (ensure_imports_and_header (lit ''calc'') fenced_reply [add_sig]))
          = lit ''import pytest'' \<and>
        list_ex (module_import (lit ''calc''))
          (splitlines (ensure_imports_and_header (lit ''calc'') fenced_reply [add_sig]))"
    by blast
  moreover from ok empty guard_establishes_imports [of "lit ''calc''" "[]" "[]"]
  have "hd (splitlines (ensure_imports_and_header (lit ''calc'') [] [])) = lit ''import pytest'' \<and>
        list_ex (module_import (lit ''calc''))
          (splitlines (ensure_imports_and_header (lit ''calc'') [] []))"
    by blast
  moreover from spaced guard_establishes_imports [of "lit ''calc''" ?spaced "[add_sig]"]
  have "hd (splitlines (ensure_imports_and_header (lit ''calc'') ?spaced [add_sig]))
          = hd (splitlines ?spaced)"
    by blast
  ultimately show ?thesis using ok hd_spaced by simp
qed

text \<open>
  The test on the first line is a prefix test on the stripped line. A first line
  \<^verbatim>\<open>import pytest_mock\<close>, or an indented \<^verbatim>\<open>import pytest\<close>, passes it and stays the
  first line: nothing is put in front, and the result does not begin with the statement
  \<^verbatim>\<open>import pytest\<close>, which the docstring of the guard promises
  (\<^verbatim>\<open>garantimos que o arquivo comece com 'import pytest'\<close>) and its comment
  announces (\<^verbatim>\<open>garantir import pytest\<close>). This is a slip of the prefix test, like
  the one for a module named \<^verbatim>\<open>py\<close> below; the statement of C1 above says nothing
  about such inputs.
\<close>

lemma guard_header_prefix_slip:
  "ensure_imports_and_header (lit ''calc'')
     (lit ''import pytest_mock'' @ NL @ lit ''from calc import add'' @ NL) [add_sig]
   = lit ''import pytest_mock'' @ NL @ lit ''from calc import add'' @ NL \<and>
   ensure_imports_and_header (lit ''calc'')
     (lit ''  import pytest'' @ NL @ lit ''from calc import add'' @ NL) [add_sig]
   = lit ''  import pytest'' @ NL @ lit ''from calc import add'' @ NL"
  by (simp add: guard_eval str_eval)

subsection \<open>Idempotence\<close>

text \<open>
  C2, as stated, fails: a reply with both lines and no newline at its end is conformant,
  and the guard returns it with a newline added.
\<close>

theorem guard_idempotent_counterexample:
  "startswith (hd (splitlines unterminated_reply)) (lit ''import pytest'') \<and>
   list_ex (\<lambda>line. startswith line (lit ''from calc import'')) (splitlines unterminated_reply) \<and>
   ensure_imports_and_header (lit ''calc'') unterminated_reply [add_sig] = unterminated_reply @ NL \<and>
   ensure_imports_and_header (lit ''calc'') unterminated_reply [add_sig] \<noteq> unterminated_reply"
  by (simp add: unterminated_reply_def guard_eval str_eval)

text \<open>
  C2, amended. Applying the guard twice gives what applying it once gives, for a module
  name that is not empty and has no white space and signature names without line breaks;
  and the guard returns unchanged every text that passes its two tests, ends with a newline
  and has no line break other than the newline character.
\<close>

theorem guard_idempotent:
  "(module_name_ok m \<and> (\<forall>f \<in> set fs. no_linebreak (name f)) \<longrightarrow>
      ensure_imports_and_header m (ensure_imports_and_header m g fs) fs
      = ensure_imports_and_header m g fs) \<and>
   (guard_conformant m g \<and> only_NL g \<and> last g = 10 \<longrightarrow>
      ensure_imports_and_header m g fs = g)"
  using guard_twice [of m fs g] guard_fixed_point [of m g fs] by blast

theorem guard_idempotent_witness:
  "module_name_ok (lit ''calc'') \<and> no_linebreak (name add_sig) \<and>
   guard_conformant (lit ''calc'') conformant_reply \<and> only_NL conformant_reply \<and>
   last conformant_reply = 10 \<and>
   ensure_imports_and_header (lit ''calc'')
     (ensure_imports_and_header (lit ''calc'') conformant_reply [add_sig]) [add_sig]
     = ensure_imports_and_header (lit ''calc'') conformant_reply [add_sig] \<and>
   ensure_imports_and_header (lit ''calc'') conformant_reply [add_sig] = conformant_reply"
proof -
  have ok: "module_name_ok (lit ''calc'')"
    by (simp add: module_name_ok_def str_eval)
  have nb: "no_linebreak (name add_sig)"
    by (simp add: add_sig_def no_linebreak_def str_eval)
  have conf: "guard_conformant (lit ''calc'') conformant_reply"
    by (simp add: conformant_reply_def guard_eval str_eval)
  have nl: "only_NL conformant_reply" "last conformant_reply = 10"
    by (simp_all add: conformant_reply_def only_NL_def str_eval)
  from ok nb conf nl guard_idempotent [of "lit ''calc''" "[add_sig]" conformant_reply]
  show ?thesis by simp
qed

text \<open>
  The hypothesis on the module name is needed. For a file \<^verbatim>\<open>calc .py\<close>, whose stem ends
  with a space, and no signature, the guard inserts \<^verbatim>\<open>import calc \<close> with the space at
  its end; this line, stripped, does not start with the prefix, and a second pass inserts
  the line again.
\<close>

lemma guard_twice_module_name_with_space:
  "ensure_imports_and_header (lit ''calc '') (lit ''x = 1'') []
     = lit ''import pytest'' @ NL @ lit ''import calc '' @ NL @ lit ''x = 1'' @ NL \<and>
   ensure_imports_and_header (lit ''calc '')
     (ensure_imports_and_header (lit ''calc '') (lit ''x = 1'') []) []
     = lit ''import pytest'' @ NL @ lit ''import calc '' @ NL @ lit ''import calc '' @ NL @
       lit ''x = 1'' @ NL"
  by (simp add: guard_eval str_eval)

subsection \<open>What it keeps and what it adds\<close>

text \<open>
  C3. The guard removes and rewrites no line of its input: the lines of the input are, in
  order and unchanged, a subsequence of the lines of the output, and the output is the
  input's lines joined by newlines with at most two lines added, the line
  \<^verbatim>\<open>import pytest\<close> in front and the import statement of the module in second place.
\<close>

theorem guard_keeps_input_lines:
  "subseq (splitlines g) (splitlines (ensure_imports_and_header m g fs)) \<and>
   (\<exists>ls. ensure_imports_and_header m g fs = join NL ls @ NL \<and>
      (ls = splitlines g \<or>
       ls = lit ''import pytest'' # splitlines g \<or>
       (splitlines g \<noteq> [] \<and> ls = hd (splitlines g) # import_stmt m fs # tl (splitlines g)) \<or>
       ls = lit ''import pytest'' # import_stmt m fs # splitlines g))"
proof
  show "subseq (splitlines g) (splitlines (ensure_imports_and_header m g fs))"
    by (rule subseq_ensure)
next
  from guarded_lines_shape [of m g fs] ensure_join [of m g fs]
  show "\<exists>ls. ensure_imports_and_header m g fs = join NL ls @ NL \<and>
      (ls = splitlines g \<or>
       ls = lit ''import pytest'' # splitlines g \<or>
       (splitlines g \<noteq> [] \<and> ls = hd (splitlines g) # import_stmt m fs # tl (splitlines g)) \<or>
       ls = lit ''import pytest'' # import_stmt m fs # splitlines g)"
    by blast
qed

text \<open>
  At a reply that has neither line, both are added in front and the two lines of the reply
  follow unchanged.
\<close>

theorem guard_keeps_input_lines_witness:
  "subseq (splitlines (lit ''def test_add():'' @ NL @ lit ''    assert add(1, 2) == 3''))
     (splitlines (ensure_imports_and_header (lit ''calc'')
        (lit ''def test_add():'' @ NL @ lit ''    assert add(1, 2) == 3'') [add_sig])) \<and>
   ensure_imports_and_header (lit ''calc'')
        (lit ''def test_add():'' @ NL @ lit ''    assert add(1, 2) == 3'') [add_sig]
   = lit ''import pytest'' @ NL @ lit ''from calc import add'' @ NL @
     lit ''def test_add():'' @ NL @ lit ''    assert add(1, 2) == 3'' @ NL"
proof
  show "subseq (splitlines (lit ''def test_add():'' @ NL @ lit ''    assert add(1, 2) == 3''))
     (splitlines (ensure_imports_and_header (lit ''calc'')
        (lit ''def test_add():'' @ NL @ lit ''    assert add(1, 2) == 3'') [add_sig]))"
    using guard_keeps_input_lines [of "lit ''def test_add():'' @ NL @ lit ''    assert add(1, 2) == 3''"
        "lit ''calc''" "[add_sig]"] by (rule conjunct1)
next
  show "ensure_imports_and_header (lit ''calc'')
        (lit ''def test_add():'' @ NL @ lit ''    assert add(1, 2) == 3'') [add_sig]
   = lit ''import pytest'' @ NL @ lit ''from calc import add'' @ NL @
     lit ''def test_add():'' @ NL @ lit ''    assert add(1, 2) == 3'' @ NL"
    by (simp add: ensure_imports_and_header_def add_sig_def str_eval)
qed

subsection \<open>Where the import goes\<close>

text \<open>
  C4, as stated, fails. The guard tests the stripped lines, so an import of the module
  that is indented inside a test function counts: no line of the reply starts with
  \<^verbatim>\<open>from calc import\<close> or \<^verbatim>\<open>import calc\<close>, and the guard inserts nothing.
\<close>

theorem guard_inserts_import_counterexample:
  "\<not> list_ex (\<lambda>line. startswith line (lit ''from calc import'') \<or> startswith line (lit ''import calc''))
       (splitlines local_import_reply) \<and>
   ensure_imports_and_header (lit ''calc'') local_import_reply [add_sig] = local_import_reply"
  by (simp add: local_import_reply_def guard_eval str_eval)

text \<open>
  C4, amended. When no line of the input, stripped of the white space around it, starts
  with \<^verbatim>\<open>from <module> import\<close> or \<^verbatim>\<open>import <module>\<close>, and the line
  \<^verbatim>\<open>import pytest\<close> does not do so either, the guard puts the import statement
  (\<^verbatim>\<open>from <module> import <names joined by ", ">\<close> for a non-empty signature list,
  \<^verbatim>\<open>import <module>\<close> for an empty one) in second place: after the input's first line
  if that line passes the test for \<^verbatim>\<open>import pytest\<close>, and after an added line
  \<^verbatim>\<open>import pytest\<close> otherwise.
\<close>

theorem guard_inserts_import_second:
  assumes "\<not> list_ex (module_import m) (splitlines g)"
    and "\<not> module_import m (lit ''import pytest'')"
  shows "ensure_imports_and_header m g fs =
           (if splitlines g \<noteq> [] \<and> pytest_header (hd (splitlines g))
            then hd (splitlines g) @ NL @ import_stmt m fs @ NL @ unlines (tl (splitlines g))
            else lit ''import pytest'' @ NL @ import_stmt m fs @ NL @ unlines (splitlines g)) \<and>
         import_stmt m fs =
           (if fs \<noteq> [] then lit ''from '' @ m @ lit '' import '' @ join (lit '', '') (map name fs)
            else lit ''import '' @ m)"
  using guard_inserts_second [OF assms] by (simp add: import_stmt_def)

theorem guard_inserts_import_second_witness:
  "\<not> list_ex (module_import (lit ''calc'')) (splitlines bare_reply) \<and>
   \<not> module_import (lit ''calc'') (lit ''import pytest'') \<and>
   ensure_imports_and_header (lit ''calc'') bare_reply [] =
     lit ''import pytest'' @ NL @ lit ''import calc'' @ NL @ NL @
     lit ''def test_nothing():'' @ NL @ lit ''    pass'' @ NL \<and>
   ensure_imports_and_header (lit ''calc'') fenced_reply [add_sig] =
     lit ''import pytest'' @ NL @ lit ''from calc import add'' @ NL @ fenced_reply @ NL"
proof -
  have h1: "\<not> list_ex (module_import (lit ''calc'')) (splitlines bare_reply)"
    by (simp add: bare_reply_def guard_eval str_eval)
  have h2: "\<not> module_import (lit ''calc'') (lit ''import pytest'')"
    by (simp add: guard_eval str_eval)
  have h3: "\<not> list_ex (module_import (lit ''calc'')) (splitlines fenced_reply)"
    by (simp add: fenced_reply_def guard_eval str_eval)
  have "ensure_imports_and_header (lit ''calc'') bare_reply [] =
     lit ''import pytest'' @ NL @ lit ''import calc'' @ NL @ NL @
     lit ''def test_nothing():'' @ NL @ lit ''    pass'' @ NL"
    using guard_inserts_import_second [OF h1 h2, of "[]"]
    by (simp add: bare_reply_def guard_eval str_eval)
  moreover have "ensure_imports_and_header (lit ''calc'') fenced_reply [add_sig] =
     lit ''import pytest'' @ NL @ lit ''from calc import add'' @ NL @ fenced_reply @ NL"
    using guard_inserts_import_second [OF h3 h2, of "[add_sig]"]
    by (simp add: fenced_reply_def guard_eval str_eval)
  ultimately show ?thesis using h1 h2 by simp
qed

text \<open>
  The guard's test for an import of the module also runs over the line
  \<^verbatim>\<open>import pytest\<close> that the guard has just added. For a module named \<^verbatim>\<open>py\<close> that line
  starts with \<^verbatim>\<open>import py\<close>: nothing is inserted, and the result does not import the
  module. This is the case that the second hypothesis above leaves out.
\<close>

lemma guard_module_named_py:
  "\<not> list_ex (module_import (lit ''py'')) (splitlines (lit ''x = 1'')) \<and>
   module_import (lit ''py'') (lit ''import pytest'') \<and>
   ensure_imports_and_header (lit ''py'') (lit ''x = 1'') [add_sig]
     = lit ''import pytest'' @ NL @ lit ''x = 1'' @ NL"
  by (simp add: guard_eval str_eval)

subsection \<open>The newline at the end\<close>

text \<open>
  C9. The result of the guard is its lines joined by newlines, with one newline added
  after them; so it is never empty and ends with a newline, a text that does not end with
  a newline is never returned as it is, and a text that passes the guard's two tests, has
  no line break other than the newline character and no newline at its end comes back with
  a newline added to it.
\<close>

theorem guard_trailing_newline:
  "ensure_imports_and_header m g fs = join NL (guarded_lines m g fs) @ NL \<and>
   ensure_imports_and_header m g fs \<noteq> [] \<and>
   last (ensure_imports_and_header m g fs) = 10 \<and>
   (g = [] \<or> last g \<noteq> 10 \<longrightarrow> ensure_imports_and_header m g fs \<noteq> g) \<and>
   (guard_conformant m g \<and> only_NL g \<and> last g \<noteq> 10 \<longrightarrow>
      ensure_imports_and_header m g fs = g @ NL)"
proof (intro conjI impI)
  show "ensure_imports_and_header m g fs = join NL (guarded_lines m g fs) @ NL"
    by (rule ensure_join)
  show "ensure_imports_and_header m g fs \<noteq> []"
    using guard_ends_with_newline [of m g fs] by simp
  show "last (ensure_imports_and_header m g fs) = 10"
    using guard_ends_with_newline [of m g fs] by simp
  show "ensure_imports_and_header m g fs \<noteq> g" if "g = [] \<or> last g \<noteq> 10"
    using that guard_ends_with_newline [of m g fs] by auto
  show "ensure_imports_and_header m g fs = g @ NL"
    if "guard_conformant m g \<and> only_NL g \<and> last g \<noteq> 10"
    using that guard_appends_newline [of m g fs] by simp
qed

theorem guard_trailing_newline_witness:
  "guard_conformant (lit ''calc'') unterminated_reply \<and> only_NL unterminated_reply \<and>
   last unterminated_reply \<noteq> 10 \<and>
   ensure_imports_and_header (lit ''calc'') unterminated_reply [add_sig] = unterminated_reply @ NL \<and>
   ensure_imports_and_header (lit ''calc'') unterminated_reply [add_sig] \<noteq> unterminated_reply"
proof -
  have conf: "guard_conformant (lit ''calc'') unterminated_reply"
    by (simp add: unterminated_reply_def guard_eval str_eval)
  have nl: "only_NL unterminated_reply" "last unterminated_reply \<noteq> 10"
    by (simp_all add: unterminated_reply_def only_NL_def str_eval)
  note inst = guard_trailing_newline [of "lit ''calc''" unterminated_reply "[add_sig]"]
  from inst conf nl
  have "ensure_imports_and_header (lit ''calc'') unterminated_reply [add_sig] = unterminated_reply @ NL"
    by blast
  moreover from inst nl
  have "ensure_imports_and_header (lit ''calc'') unterminated_reply [add_sig] \<noteq> unterminated_reply"
    by blast
  ultimately show ?thesis using conf nl by blast
qed

section \<open>The Signature Extractor\<close>

lemma extract_loop_length:
  "length (extract_loop ext body funcs) = length funcs + length (filter is_FunctionDef body)"
  by (induction ext body funcs rule: extract_loop.induct) simp_all

lemma extract_loop_names:
  "map name (extract_loop ext body funcs)
   = map name funcs @ map def_name (filter is_FunctionDef body)"
  by (induction ext body funcs rule: extract_loop.induct) simp_all

lemma extract_loop_args:
  "map args (extract_loop ext body funcs)
   = map args funcs @ map ordinary_params (filter is_FunctionDef body)"
  by (induction ext body funcs rule: extract_loop.induct) simp_all

lemma extract_loop_skips_async:
  "extract_loop ext (filter (\<lambda>n. \<not> is_AsyncFunctionDef n) body) funcs = extract_loop ext body funcs"
  by (induction ext body funcs rule: extract_loop.induct) simp_all

lemma extract_loop_no_def:
  "\<forall>n \<in> set body. \<not> is_FunctionDef n \<Longrightarrow> extract_loop ext body funcs = funcs"
  by (induction ext body funcs rule: extract_loop.induct) simp_all

lemma extract_parsed:
  "read_text w p = Some src \<Longrightarrow> ast_parse ext src = Inr body \<Longrightarrow>
   extract_top_level_functions ext w p = Inr (extract_loop ext body [], src)"
  by (simp add: extract_top_level_functions_def)

lemma universal_newlines_id: "13 \<notin> set s \<Longrightarrow> universal_newlines s = s"
  by (induction s rule: universal_newlines.induct) auto

lemma read_text_example:
  "13 \<notin> set src \<Longrightarrow> read_text (example_world src) calc_path = Some src"
  by (simp add: read_text_def example_world_def universal_newlines_id)

lemma example_sources_read:
  "read_text (example_world add_source) calc_path = Some add_source"
  "read_text (example_world stack_source) calc_path = Some stack_source"
  "read_text (example_world log_source) calc_path = Some log_source"
  "read_text (example_world fetch_source) calc_path = Some fetch_source"
  by (rule read_text_example, simp add: add_source_def stack_source_def log_source_def
        fetch_source_def lit_def NL_def)+

lemma read_text_CRLF:
  "read_text (example_world (lit ''x = 1'' @ [13, 10] @ lit ''y = 2'' @ [13])) calc_path
   = Some (lit ''x = 1'' @ NL @ lit ''y = 2'' @ NL)"
  by (simp add: read_text_def example_world_def lit_def NL_def)

lemmas run_eval =
  extract_top_level_functions_def example_sources_read example_extern_def params_def
  get_docstring_def

subsection \<open>One signature for each top-level def\<close>

text \<open>
  C5, as stated, fails. The extractor reads the field \<^verbatim>\<open>args\<close> of the node
  \<^verbatim>\<open>arguments\<close>, which holds the ordinary parameters only: for
  \<^verbatim>\<open>def log(msg, *values)\<close> the signature has the one parameter \<^verbatim>\<open>msg\<close>, where the
  declaration has two.
\<close>

theorem extractor_parameters_counterexample:
  "extract_top_level_functions (example_extern log_source log_tree []) (example_world log_source)
     calc_path
   = Inr ([\<lparr>name = lit ''log'', args = [lit ''msg''], doc = None\<rparr>], log_source) \<and>
   map declared_params log_tree = [[lit ''msg'', lit ''values'']]"
  by (simp add: run_eval log_tree_def declared_params_of_def)

text \<open>
  C5, amended. For a source file that parses, the extractor returns one signature for each
  \<^verbatim>\<open>def\<close> statement of the module body (a \<^verbatim>\<open>FunctionDef\<close> node; an \<^verbatim>\<open>async def\<close> is
  none), in source order, with the name of the function and the names of its ordinary
  (positional-or-keyword) parameters in order; positional-only, \<^verbatim>\<open>*args\<close>, keyword-only
  and \<^verbatim>\<open>**kwargs\<close> parameters are left out. Functions inside classes, inside other
  functions or inside compound statements are not statements of the module body and give
  no signature.
\<close>

theorem extractor_top_level_defs:
  assumes "read_text w p = Some src" and "ast_parse ext src = Inr body"
  shows "\<exists>funcs. extract_top_level_functions ext w p = Inr (funcs, src) \<and>
           length funcs = length (filter is_FunctionDef body) \<and>
           map name funcs = map def_name (filter is_FunctionDef body) \<and>
           map args funcs = map ordinary_params (filter is_FunctionDef body)"
  using extract_parsed [OF assms]
    extract_loop_length [of ext body "[]"] extract_loop_names [of ext body "[]"]
    extract_loop_args [of ext body "[]"]
  by simp

theorem extractor_top_level_defs_witness:
  "read_text (example_world stack_source) calc_path = Some stack_source \<and>
   ast_parse (example_extern stack_source stack_tree []) stack_source = Inr stack_tree \<and>
   extract_top_level_functions (example_extern stack_source stack_tree [])
     (example_world stack_source) calc_path = Inr ([add_sig], stack_source) \<and>
   filter is_FunctionDef stack_tree = [FunctionDef (lit ''add'') (params [lit ''a'', lit ''b'']) [Simple]]"
proof -
  have f: "read_text (example_world stack_source) calc_path = Some stack_source"
    by (rule example_sources_read)
  have p: "ast_parse (example_extern stack_source stack_tree []) stack_source = Inr stack_tree"
    by (simp add: example_extern_def)
  have t: "filter is_FunctionDef stack_tree
           = [FunctionDef (lit ''add'') (params [lit ''a'', lit ''b'']) [Simple]]"
    by (simp add: stack_tree_def)
  from extractor_top_level_defs [OF f p] obtain funcs where
    r: "extract_top_level_functions (example_extern stack_source stack_tree [])
          (example_world stack_source) calc_path = Inr (funcs, stack_source)"
    and n: "map name funcs = map def_name (filter is_FunctionDef stack_tree)"
    and a: "map args funcs = map ordinary_params (filter is_FunctionDef stack_tree)"
    by blast
  have d: "map doc funcs = [None]"
    using r by (auto simp: run_eval stack_tree_def)
  from n a d have "funcs = [add_sig]"
    unfolding t by (cases funcs) (auto simp: add_sig_def params_def)
  with f p t r show ?thesis by simp
qed

subsection \<open>No signature for an async def\<close>

text \<open>
  C10. The extractor collects the \<^verbatim>\<open>FunctionDef\<close> nodes of the module body only: an
  \<^verbatim>\<open>async def\<close> at top level is passed over (the result is what it is without the
  \<^verbatim>\<open>async def\<close> statements), and a module that has no \<^verbatim>\<open>def\<close> at top level, whatever
  \<^verbatim>\<open>async def\<close> and other statements it has there, gives the empty list.
\<close>

theorem extractor_skips_async:
  assumes "read_text w p = Some src" and "ast_parse ext src = Inr body"
  shows "extract_top_level_functions ext w p
           = Inr (extract_loop ext (filter (\<lambda>n. \<not> is_AsyncFunctionDef n) body) [], src) \<and>
         ((\<forall>n \<in> set body. \<not> is_FunctionDef n) \<longrightarrow>
            extract_top_level_functions ext w p = Inr ([], src))"
  using extract_parsed [OF assms] extract_loop_skips_async [of ext body "[]"]
    extract_loop_no_def [of body ext "[]"]
  by simp

theorem extractor_skips_async_witness:
  "read_text (example_world fetch_source) calc_path = Some fetch_source \<and>
   ast_parse (example_extern fetch_source fetch_tree []) fetch_source = Inr fetch_tree \<and>
   filter is_AsyncFunctionDef fetch_tree
     = [AsyncFunctionDef (lit ''fetch'') (params [lit ''url'']) [Simple]] \<and>
   filter is_FunctionDef fetch_tree = [] \<and>
   extract_top_level_functions (example_extern fetch_source fetch_tree [])
     (example_world fetch_source) calc_path = Inr ([], fetch_source)"
proof -
  have f: "read_text (example_world fetch_source) calc_path = Some fetch_source"
    by (rule example_sources_read)
  have p: "ast_parse (example_extern fetch_source fetch_tree []) fetch_source = Inr fetch_tree"
    by (simp add: example_extern_def)
  have a: "filter is_AsyncFunctionDef fetch_tree
             = [AsyncFunctionDef (lit ''fetch'') (params [lit ''url'']) [Simple]]"
          "filter is_FunctionDef fetch_tree = []"
    by (simp_all add: fetch_tree_def)
  have "\<forall>n \<in> set fetch_tree. \<not> is_FunctionDef n"
    by (simp add: fetch_tree_def)
  with extractor_skips_async [OF f p]
  have "extract_top_level_functions (example_extern fetch_source fetch_tree [])
     (example_world fetch_source) calc_path = Inr ([], fetch_source)"
    by blast
  with f p a show ?thesis by simp
qed

section \<open>The Prompt Builder\<close>

lemma human_prompt_head_shape:
  "\<exists>a. human_prompt_head m fs = NL @ 71 # a \<and> (\<exists>p. 71 # a = p @ NL)"
proof -
  have first: "lit ''Gere um arquivo pytest para o m'' = 71 # lit ''ere um arquivo pytest para o m''"
    by (simp add: lit_def)
  show ?thesis
    unfolding human_prompt_head_def first by simp
qed

lemma human_prompt_tail_shape:
  "\<exists>b. human_prompt_tail m = (NL @ b) @ [121] @ NL"
proof -
  have last: "lit ''.py'' = lit ''.p'' @ [121]"
    by (simp add: lit_def)
  show ?thesis
    unfolding human_prompt_tail_def last by simp
qed

lemma human_text:
  "snd (build_prompts m code fs)
   = tl (human_prompt_head m fs) @ funcs_list_text fs @ butlast (human_prompt_tail m)"
proof -
  from human_prompt_head_shape [of m fs] obtain a where
    h: "human_prompt_head m fs = NL @ 71 # a" by blast
  from human_prompt_tail_shape [of m] obtain b where
    t: "human_prompt_tail m = (NL @ b) @ [121] @ NL" by blast
  have sp: "\<not> isspace 71" "\<not> isspace 121"
    by (simp_all add: isspace_def)
  have sig: "(\<lambda>f. lit ''- '' @ name f @ lit ''('' @ join (lit '', '') (args f) @ lit '')'') = signature_line"
    by (simp add: signature_line_def fun_eq_iff)
  have "snd (build_prompts m code fs)
        = strip ((NL @ 71 # a) @ funcs_list_text fs @ ((NL @ b) @ [121] @ NL))"
    unfolding build_prompts_def Let_def snd_conv sig funcs_list_text_def no_functions_marker_def h t ..
  also have "\<dots> = (71 # a) @ funcs_list_text fs @ (NL @ b) @ [121]"
    by (rule strip_between [OF sp])
  also have "\<dots> = tl (human_prompt_head m fs) @ funcs_list_text fs @ butlast (human_prompt_tail m)"
    unfolding h t by (simp add: NL_def butlast_append)
  finally show ?thesis .
qed

lemma human_text_around:
  "\<exists>P Q. snd (build_prompts m code fs) = P @ NL @ funcs_list_text fs @ NL @ Q"
proof -
  from human_prompt_head_shape [of m fs] obtain a p where
    h: "human_prompt_head m fs = NL @ 71 # a" "71 # a = p @ NL" by blast
  from human_prompt_tail_shape [of m] obtain b where
    t: "human_prompt_tail m = (NL @ b) @ [121] @ NL" by blast
  have "tl (human_prompt_head m fs) = p @ NL"
    using h by (simp add: NL_def)
  moreover have "butlast (human_prompt_tail m) = NL @ b @ [121]"
    unfolding t by (simp add: NL_def butlast_append)
  ultimately have "snd (build_prompts m code fs) = p @ NL @ funcs_list_text fs @ NL @ (b @ [121])"
    by (simp add: human_text)
  then show ?thesis by blast
qed

text \<open>
  C7. \<open>build_prompts\<close> is a function of its three arguments (and does not look at the
  source code). For every signature of the list its human text has the line
  \<^verbatim>\<open>- name(p1, p2, ...)\<close>, which is \<open>signature_line\<close>, between two newlines; for the empty
  list it has the placeholder \<open>no_functions_marker\<close> there.
\<close>

theorem prompt_lists_signatures:
  "(\<forall>f \<in> set fs. \<exists>pre post.
      snd (build_prompts m code fs) = pre @ NL @ signature_line f @ NL @ post) \<and>
   (fs = [] \<longrightarrow> (\<exists>pre post.
      snd (build_prompts m code fs) = pre @ NL @ no_functions_marker @ NL @ post)) \<and>
   build_prompts m code fs = build_prompts m code' fs"
proof (intro conjI ballI impI)
  fix f assume f: "f \<in> set fs"
  then have ne: "fs \<noteq> []" by auto
  from human_text_around [of m code fs] obtain P Q where
    "snd (build_prompts m code fs) = P @ NL @ funcs_list_text fs @ NL @ Q" by blast
  with ne have h: "snd (build_prompts m code fs) = P @ (NL @ join NL (map signature_line fs) @ NL) @ Q"
    by (simp add: funcs_list_text_def)
  from f have "signature_line f \<in> set (map signature_line fs)" by simp
  from line_in_join [OF this] obtain pre post where
    "NL @ join NL (map signature_line fs) @ NL = pre @ NL @ signature_line f @ NL @ post" by blast
  with h have "snd (build_prompts m code fs) = (P @ pre) @ NL @ signature_line f @ NL @ (post @ Q)"
    by simp
  then show "\<exists>pre post. snd (build_prompts m code fs) = pre @ NL @ signature_line f @ NL @ post"
    by blast
next
  assume "fs = []"
  with human_text_around [of m code fs]
  show "\<exists>pre post. snd (build_prompts m code fs) = pre @ NL @ no_functions_marker @ NL @ post"
    by (simp add: funcs_list_text_def)
next
  show "build_prompts m code fs = build_prompts m code' fs"
    by (simp add: build_prompts_def)
qed

theorem prompt_lists_signatures_witness:
  "signature_line add_sig = lit ''- add(a, b)'' \<and>
   (\<exists>pre post. snd (build_prompts (lit ''calc'') add_source [add_sig])
                 = pre @ NL @ lit ''- add(a, b)'' @ NL @ post) \<and>
   (\<exists>pre post. snd (build_prompts (lit ''calc'') [] [])
                 = pre @ NL @ no_functions_marker @ NL @ post)"
proof -
  have l: "signature_line add_sig = lit ''- add(a, b)''"
    by (simp add: signature_line_def add_sig_def lit_def)
  have "add_sig \<in> set [add_sig]" by simp
  with prompt_lists_signatures [of "[add_sig]" "lit ''calc''" add_source]
  have "\<exists>pre post. snd (build_prompts (lit ''calc'') add_source [add_sig])
                 = pre @ NL @ signature_line add_sig @ NL @ post"
    by blast
  moreover from prompt_lists_signatures [of "[]" "lit ''calc''" "[]"]
  have "\<exists>pre post. snd (build_prompts (lit ''calc'') [] [])
                 = pre @ NL @ no_functions_marker @ NL @ post"
    by blast
  ultimately show ?thesis using l by simp
qed

section \<open>The Model Client\<close>

text \<open>
  C6. Without a deployment name in the environment (the variable unset or empty) the
  model client returns its \<^verbatim>\<open>RuntimeError\<close> and leaves the world as it is: no client is
  created and none is invoked. With a deployment name, the client it creates has that
  deployment, temperature 0, two retries at most, and the API version of the environment
  or, when that variable is unset, \<^verbatim>\<open>2023-06-01-preview\<close>; it is invoked once, with the
  system and the human message, if its creation succeeds.
\<close>

theorem client_configuration:
  "(environ w (lit ''AZURE_OPENAI_DEPLOYMENT'') = None \<or>
    environ w (lit ''AZURE_OPENAI_DEPLOYMENT'') = Some [] \<longrightarrow>
      call_azure_llm ext sp hp w = (Inl missing_deployment, w)) \<and>
   (environ w (lit ''AZURE_OPENAI_DEPLOYMENT'') = Some d \<and> d \<noteq> [] \<longrightarrow>
      (\<exists>llm. azure_deployment llm = d \<and> temperature llm = 0 \<and> max_retries llm = 2 \<and>
         api_version llm =
           (case environ w (lit ''AZURE_OPENAI_API_VERSION'') of
              None \<Rightarrow> lit ''2023-06-01-preview'' | Some v \<Rightarrow> v) \<and>
         call_azure_llm ext sp hp w =
           (case new_client ext llm of
              Inl e \<Rightarrow> (Inl e, w\<lparr>trace := trace w @ [Client_created llm]\<rparr>)
            | Inr u \<Rightarrow>
                (invoke ext llm [(lit ''system'', sp), (lit ''human'', hp)],
                 w\<lparr>trace := trace w @ [Client_created llm,
                      Client_invoked llm [(lit ''system'', sp), (lit ''human'', hp)]]\<rparr>))))"
proof (intro conjI impI)
  assume "environ w (lit ''AZURE_OPENAI_DEPLOYMENT'') = None \<or>
          environ w (lit ''AZURE_OPENAI_DEPLOYMENT'') = Some []"
  then show "call_azure_llm ext sp hp w = (Inl missing_deployment, w)"
    by (auto simp: call_azure_llm_def)
next
  let ?llm = "\<lparr>azure_deployment = d,
               api_version = (case environ w (lit ''AZURE_OPENAI_API_VERSION'') of
                                None \<Rightarrow> lit ''2023-06-01-preview'' | Some v \<Rightarrow> v),
               temperature = 0, max_retries = 2\<rparr>"
  assume "environ w (lit ''AZURE_OPENAI_DEPLOYMENT'') = Some d \<and> d \<noteq> []"
  then have "call_azure_llm ext sp hp w =
           (case new_client ext ?llm of
              Inl e \<Rightarrow> (Inl e, w\<lparr>trace := trace w @ [Client_created ?llm]\<rparr>)
            | Inr u \<Rightarrow>
                (invoke ext ?llm [(lit ''system'', sp), (lit ''human'', hp)],
                 w\<lparr>trace := trace w @ [Client_created ?llm,
                      Client_invoked ?llm [(lit ''system'', sp), (lit ''human'', hp)]]\<rparr>))"
    by (simp add: call_azure_llm_def Let_def split: sum.split)
  then show "\<exists>llm. azure_deployment llm = d \<and> temperature llm = 0 \<and> max_retries llm = 2 \<and>
         api_version llm =
           (case environ w (lit ''AZURE_OPENAI_API_VERSION'') of
              None \<Rightarrow> lit ''2023-06-01-preview'' | Some v \<Rightarrow> v) \<and>
         call_azure_llm ext sp hp w =
           (case new_client ext llm of
              Inl e \<Rightarrow> (Inl e, w\<lparr>trace := trace w @ [Client_created llm]\<rparr>)
            | Inr u \<Rightarrow>
                (invoke ext llm [(lit ''system'', sp), (lit ''human'', hp)],
                 w\<lparr>trace := trace w @ [Client_created llm,
                      Client_invoked llm [(lit ''system'', sp), (lit ''human'', hp)]]\<rparr>))"
    by (intro exI [of _ ?llm]) simp
qed

theorem client_configuration_witness:
  "call_azure_llm (example_extern add_source add_tree conformant_reply) (lit ''s'') (lit ''h'')
     ((example_world add_source)\<lparr>environ := Map.empty\<rparr>)
     = (Inl missing_deployment, (example_world add_source)\<lparr>environ := Map.empty\<rparr>) \<and>
   call_azure_llm (example_extern add_source add_tree conformant_reply) (lit ''s'') (lit ''h'')
     (example_world add_source)
     = (Inr conformant_reply,
        (example_world add_source)\<lparr>trace :=
           [Client_created \<lparr>azure_deployment = lit ''gpt-4o'', api_version = lit ''2023-06-01-preview'',
                            temperature = 0, max_retries = 2\<rparr>,
            Client_invoked \<lparr>azure_deployment = lit ''gpt-4o'', api_version = lit ''2023-06-01-preview'',
                            temperature = 0, max_retries = 2\<rparr>
              [(lit ''system'', lit ''s''), (lit ''human'', lit ''h'')]]\<rparr>)"
proof
  have "environ ((example_world add_source)\<lparr>environ := Map.empty\<rparr>) (lit ''AZURE_OPENAI_DEPLOYMENT'') = None"
    by simp
  with client_configuration [of "(example_world add_source)\<lparr>environ := Map.empty\<rparr>"
      "example_extern add_source add_tree conformant_reply" "lit ''s''" "lit ''h''"]
  show "call_azure_llm (example_extern add_source add_tree conformant_reply) (lit ''s'') (lit ''h'')
     ((example_world add_source)\<lparr>environ := Map.empty\<rparr>)
     = (Inl missing_deployment, (example_world add_source)\<lparr>environ := Map.empty\<rparr>)"
    by blast
next
  let ?cfg = "\<lparr>azure_deployment = lit ''gpt-4o'', api_version = lit ''2023-06-01-preview'',
                            temperature = 0, max_retries = 2\<rparr>"
  have set: "environ (example_world add_source) (lit ''AZURE_OPENAI_DEPLOYMENT'') = Some (lit ''gpt-4o'')
        \<and> lit ''gpt-4o'' \<noteq> []"
    by (simp add: example_world_def lit_def)
  have unset: "environ (example_world add_source) (lit ''AZURE_OPENAI_API_VERSION'') = None"
    by (simp add: example_world_def lit_def)
  from client_configuration [of "example_world add_source"
      "example_extern add_source add_tree conformant_reply" "lit ''s''" "lit ''h''" "lit ''gpt-4o''"] set
  obtain llm where llm: "azure_deployment llm = lit ''gpt-4o''" "temperature llm = 0"
      "max_retries llm = 2"
      "api_version llm = (case environ (example_world add_source) (lit ''AZURE_OPENAI_API_VERSION'') of
              None \<Rightarrow> lit ''2023-06-01-preview'' | Some v \<Rightarrow> v)"
    and call: "call_azure_llm (example_extern add_source add_tree conformant_reply) (lit ''s'') (lit ''h'')
         (example_world add_source) =
           (case new_client (example_extern add_source add_tree conformant_reply) llm of
              Inl e \<Rightarrow> (Inl e, (example_world add_source)\<lparr>trace := trace (example_world add_source) @ [Client_created llm]\<rparr>)
            | Inr u \<Rightarrow>
                (invoke (example_extern add_source add_tree conformant_reply) llm [(lit ''system'', lit ''s''), (lit ''human'', lit ''h'')],
                 (example_world add_source)\<lparr>trace := trace (example_world add_source) @ [Client_created llm,
                      Client_invoked llm [(lit ''system'', lit ''s''), (lit ''human'', lit ''h'')]]\<rparr>))"
    by blast
  from llm unset have "llm = ?cfg"
    by (cases llm) simp
  with call show "call_azure_llm (example_extern add_source add_tree conformant_reply) (lit ''s'') (lit ''h'')
     (example_world add_source)
     = (Inr conformant_reply, (example_world add_source)\<lparr>trace := [Client_created ?cfg,
            Client_invoked ?cfg [(lit ''system'', lit ''s''), (lit ''human'', lit ''h'')]]\<rparr>)"
    by (simp add: example_extern_def example_world_def)
qed

section \<open>The pipeline\<close>

text \<open>The stem of a file name, as \<^verbatim>\<open>pathlib\<close> computes it.\<close>

lemma stem_example: "stem (lit ''calc.py'') = lit ''calc''"
  by (simp add: stem_def rfind_def str_eval)

lemma stem_hidden: "stem (lit ''.bashrc'') = lit ''.bashrc''"
  by (simp add: stem_def rfind_def str_eval)

lemma stem_two: "stem (lit ''a.tar.gz'') = lit ''a.tar''"
  by (simp add: stem_def rfind_def str_eval)

lemma writes_append: "writes (s @ t) = writes s @ writes t"
  by (induction s rule: writes.induct) simp_all

lemma call_azure_llm_frame:
  assumes "call_azure_llm ext sp hp w = (r, w1)"
  shows "files w1 = files w \<and> writes (trace w1) = writes (trace w)"
  using assms
  by (auto simp: call_azure_llm_def Let_def writes_append split: option.splits if_splits sum.splits)

lemma write_test_file_cases:
  assumes "write_test_file ext q content w = (r, w2)"
  shows "(r = Inr () \<and> write_text ext q content = Inr () \<and> files w2 = (files w)(q \<mapsto> content) \<and>
          writes (trace w2) = writes (trace w) @ [q]) \<or>
         ((\<exists>e. r = Inl e \<and> write_text ext q content = Inl e) \<and> w2 = w)"
proof (cases "write_text ext q content")
  case (Inl e)
  then have "write_test_file ext q content w = (Inl e, w)"
    by (simp add: write_test_file_def)
  with assms have "r = Inl e" "w2 = w" by simp_all
  with Inl show ?thesis by simp
next
  case (Inr u)
  with assms show ?thesis by (auto simp: write_test_file_def writes_append)
qed

lemma run_pytest_frame:
  assumes "run_pytest_for_file ext q w = (r, w3)"
  shows "files w3 = files w \<and> writes (trace w3) = writes (trace w)"
  using assms by (auto simp: run_pytest_for_file_def writes_append)

lemma main_unfold:
  "main ext p run w =
     (if files w p = None then (Inl FileNotFoundError, w)
      else case extract_top_level_functions ext w p of
        Inl e \<Rightarrow> (Inl e, w)
      | Inr (funs, code) \<Rightarrow>
          (case call_azure_llm ext (fst (build_prompts (stem (file_name p)) code funs))
                  (snd (build_prompts (stem (file_name p)) code funs)) w of
             (Inl e, w1) \<Rightarrow> (Inl e, w1)
           | (Inr generated, w1) \<Rightarrow>
               (case write_test_file ext (dest_path p)
                       (ensure_imports_and_header (stem (file_name p)) generated funs) w1 of
                  (Inl e, w2) \<Rightarrow> (Inl e, w2)
                | (Inr u, w2) \<Rightarrow>
                    if run
                    then (case run_pytest_for_file ext (dest_path p) w2 of
                            (Inl e, w3) \<Rightarrow> (Inl e, w3)
                          | (Inr rc, w3) \<Rightarrow> (Inr (), w3))
                    else (Inr (), w2))))"
  unfolding main_def Let_def dest_path_def
  by (simp add: case_prod_beta split: sum.split)

lemma main_outcome:
  assumes run: "main ext p run w = (r, w')"
  shows "(\<exists>functions generated.
            stages_succeed ext p w functions generated \<and>
            write_text ext (dest_path p)
              (ensure_imports_and_header (stem (file_name p)) generated functions) = Inr () \<and>
            files w' = (files w)(dest_path p \<mapsto>
              ensure_imports_and_header (stem (file_name p)) generated functions) \<and>
            writes (trace w') = writes (trace w) @ [dest_path p]) \<or>
         ((\<exists>e. r = Inl e) \<and> files w' = files w \<and> writes (trace w') = writes (trace w) \<and>
          \<not> (\<exists>functions generated.
               stages_succeed ext p w functions generated \<and>
               write_text ext (dest_path p)
                 (ensure_imports_and_header (stem (file_name p)) generated functions) = Inr ()))"
proof (cases "files w p = None")
  case True
  with run show ?thesis by (auto simp: main_def stages_succeed_def)
next
  case ex: False
  show ?thesis
  proof (cases "extract_top_level_functions ext w p")
    case (Inl e)
    with run ex show ?thesis by (auto simp: main_def stages_succeed_def)
  next
    case (Inr fc)
    obtain funs code where fc: "fc = (funs, code)" by (cases fc)
    let ?m = "stem (file_name p)"
    let ?sp = "fst (build_prompts ?m code funs)"
    let ?hp = "snd (build_prompts ?m code funs)"
    obtain r1 w1 where call: "call_azure_llm ext ?sp ?hp w = (r1, w1)"
      by (cases "call_azure_llm ext ?sp ?hp w")
    from call_azure_llm_frame [OF call]
    have fr1: "files w1 = files w" "writes (trace w1) = writes (trace w)" by simp_all
    show ?thesis
    proof (cases r1)
      case (Inl e)
      with run ex Inr fc call fr1 show ?thesis
        by (auto simp: main_unfold stages_succeed_def)
    next
      case gen: (Inr generated)
      let ?content = "ensure_imports_and_header ?m generated funs"
      have ok: "stages_succeed ext p w funs generated"
        using ex Inr fc call gen by (auto simp: stages_succeed_def)
      have only: "funs' = funs \<and> gen' = generated"
        if "stages_succeed ext p w funs' gen'" for funs' gen'
        using that Inr fc call gen by (auto simp: stages_succeed_def)
      obtain r2 w2 where wr: "write_test_file ext (dest_path p) ?content w1 = (r2, w2)"
        by (cases "write_test_file ext (dest_path p) ?content w1")
      have main_eq: "main ext p run w =
          (case (r2, w2) of
             (Inl e, w2) \<Rightarrow> (Inl e, w2)
           | (Inr u, w2) \<Rightarrow>
               if run
               then (case run_pytest_for_file ext (dest_path p) w2 of
                       (Inl e, w3) \<Rightarrow> (Inl e, w3)
                     | (Inr rc, w3) \<Rightarrow> (Inr (), w3))
               else (Inr (), w2))"
        by (simp add: main_unfold ex Inr fc call gen wr)
      have res: "(r, w') =
          (case r2 of
             Inl e \<Rightarrow> (Inl e, w2)
           | Inr u \<Rightarrow>
               if run
               then (case run_pytest_for_file ext (dest_path p) w2 of
                       (Inl e, w3) \<Rightarrow> (Inl e, w3)
                     | (Inr rc, w3) \<Rightarrow> (Inr (), w3))
               else (Inr (), w2))"
        using run unfolding main_eq by simp
      from write_test_file_cases [OF wr] show ?thesis
      proof (elim disjE conjE exE)
        fix e assume e: "r2 = Inl e" "write_text ext (dest_path p) ?content = Inl e" "w2 = w1"
        with res have "r = Inl e" "w' = w1" by simp_all
        have no: "\<not> (\<exists>functions generated.
               stages_succeed ext p w functions generated \<and>
               write_text ext (dest_path p)
                 (ensure_imports_and_header (stem (file_name p)) generated functions) = Inr ())"
        proof
          assume "\<exists>functions generated.
               stages_succeed ext p w functions generated \<and>
               write_text ext (dest_path p)
                 (ensure_imports_and_header (stem (file_name p)) generated functions) = Inr ()"
          then obtain funs' gen' where
            "stages_succeed ext p w funs' gen'"
            "write_text ext (dest_path p)
                 (ensure_imports_and_header (stem (file_name p)) gen' funs') = Inr ()"
            by blast
          with only [of funs' gen'] e(2) show False by simp
        qed
        have "(\<exists>e. r = Inl e) \<and> files w' = files w \<and> writes (trace w') = writes (trace w)"
          using \<open>r = Inl e\<close> \<open>w' = w1\<close> fr1 by simp
        with no show ?thesis by blast
      next
        assume s: "r2 = Inr ()" "write_text ext (dest_path p) ?content = Inr ()"
          "files w2 = (files w1)(dest_path p \<mapsto> ?content)"
          "writes (trace w2) = writes (trace w1) @ [dest_path p]"
        have "files w' = files w2 \<and> writes (trace w') = writes (trace w2)"
        proof (cases run)
          case False
          with res s(1) show ?thesis by simp
        next
          case True
          obtain r3 w3 where py: "run_pytest_for_file ext (dest_path p) w2 = (r3, w3)"
            by (cases "run_pytest_for_file ext (dest_path p) w2")
          with res s(1) True have "w' = w3"
            by (cases r3) simp_all
          with run_pytest_frame [OF py] show ?thesis by simp
        qed
        then have "files w' = (files w)(dest_path p \<mapsto> ?content)"
          "writes (trace w') = writes (trace w) @ [dest_path p]"
          using s(3,4) fr1 by simp_all
        with ok s(2) have "\<exists>functions generated.
            stages_succeed ext p w functions generated \<and>
            write_text ext (dest_path p)
              (ensure_imports_and_header (stem (file_name p)) generated functions) = Inr () \<and>
            files w' = (files w)(dest_path p \<mapsto>
              ensure_imports_and_header (stem (file_name p)) generated functions) \<and>
            writes (trace w') = writes (trace w) @ [dest_path p]"
          by blast
        then show ?thesis ..
      qed
    qed
  qed
qed

text \<open>
  The example run with the source of \<open>add\<close> and any reply: it succeeds, and the test file
  holds the guard's result for the reply.
\<close>

lemma example_run:
  "fst (main (example_extern add_source add_tree reply) calc_path False (example_world add_source))
     = Inr () \<and>
   files (snd (main (example_extern add_source add_tree reply) calc_path False
            (example_world add_source))) (Path (lit ''proj'') (lit ''test_calc.py''))
     = Some (ensure_imports_and_header (lit ''calc'') reply [add_sig])"
proof -
  let ?E = "example_extern add_source add_tree reply"
  let ?W = "example_world add_source"
  have st: "stem (file_name calc_path) = lit ''calc''"
    by (simp add: calc_path_def stem_example)
  have dest: "dest_path calc_path = Path (lit ''proj'') (lit ''test_calc.py'')"
    by (simp add: dest_path_def st) (simp add: calc_path_def lit_def)
  have ex: "extract_top_level_functions ?E ?W calc_path = Inr ([add_sig], add_source)"
    by (simp add: run_eval add_tree_def add_sig_def)
  have call: "\<exists>w1. call_azure_llm ?E sp hp ?W = (Inr reply, w1)" for sp hp
    by (simp add: call_azure_llm_def example_world_def example_extern_def Let_def lit_def)
  obtain w1 where w1: "call_azure_llm ?E (fst (build_prompts (lit ''calc'') add_source [add_sig]))
       (snd (build_prompts (lit ''calc'') add_source [add_sig])) ?W = (Inr reply, w1)"
    using call by blast
  have wt: "write_text ?E q c = Inr ()" for q c
    by (simp add: example_extern_def)
  have fl: "files ?W calc_path \<noteq> None"
    by (simp add: example_world_def)
  have run: "main ?E calc_path False ?W =
      (Inr (), w1\<lparr>files := (files w1)(dest_path calc_path \<mapsto>
                   ensure_imports_and_header (lit ''calc'') reply [add_sig]),
                 trace := trace w1 @ [File_written (dest_path calc_path)]\<rparr>)"
    by (simp add: main_unfold fl ex st w1 write_test_file_def wt)
  show ?thesis
    unfolding run dest [symmetric] by simp
qed

text \<open>
  C8, as stated, fails where it promises a conformant file. The chat model's reply imports
  the function inside the test; every stage succeeds and the reply is written as it is,
  with no line that starts with \<^verbatim>\<open>from calc import\<close> or \<^verbatim>\<open>import calc\<close>.
\<close>

theorem pipeline_conformance_counterexample:
  "fst (main (example_extern add_source add_tree local_import_reply) calc_path False
          (example_world add_source)) = Inr () \<and>
   files (snd (main (example_extern add_source add_tree local_import_reply) calc_path False
          (example_world add_source))) (Path (lit ''proj'') (lit ''test_calc.py''))
     = Some local_import_reply \<and>
   \<not> list_ex (\<lambda>line. startswith line (lit ''from calc import'') \<or> startswith line (lit ''import calc''))
       (splitlines local_import_reply)"
proof -
  have "ensure_imports_and_header (lit ''calc'') local_import_reply [add_sig] = local_import_reply"
    by (simp add: local_import_reply_def guard_eval str_eval)
  moreover have "\<not> list_ex (\<lambda>line. startswith line (lit ''from calc import'') \<or>
                                  startswith line (lit ''import calc''))
       (splitlines local_import_reply)"
    by (simp add: local_import_reply_def str_eval)
  ultimately show ?thesis
    using example_run [of local_import_reply] by simp
qed

text \<open>
  C8, amended. A run of the pipeline ends in one of two ways. Either the file is found, the
  extractor and the model client return their results, and the guard's result for them is
  written, as the one write of the run, to \<^verbatim>\<open>test_<module>.py\<close> beside the source file;
  the text written has a first line that, stripped, starts with \<^verbatim>\<open>import pytest\<close>, and,
  when the module name is not empty and has no white space, a line that, stripped, starts
  with \<^verbatim>\<open>from <module> import\<close> or \<^verbatim>\<open>import <module>\<close>. Or the run ends with an error,
  no file has been written and the files are what they were; this happens only when a
  stage before the writer fails or the write itself does.
\<close>

theorem pipeline_no_partial_success:
  assumes "main ext p run w = (r, w')"
  shows "(\<exists>functions generated.
            stages_succeed ext p w functions generated \<and>
            write_text ext (dest_path p)
              (ensure_imports_and_header (stem (file_name p)) generated functions) = Inr () \<and>
            files w' = (files w)(dest_path p \<mapsto>
              ensure_imports_and_header (stem (file_name p)) generated functions) \<and>
            writes (trace w') = writes (trace w) @ [dest_path p] \<and>
            pytest_header (hd (splitlines
              (ensure_imports_and_header (stem (file_name p)) generated functions))) \<and>
            (module_name_ok (stem (file_name p)) \<longrightarrow>
               list_ex (module_import (stem (file_name p))) (splitlines
                 (ensure_imports_and_header (stem (file_name p)) generated functions)))) \<or>
         ((\<exists>e. r = Inl e) \<and> files w' = files w \<and> writes (trace w') = writes (trace w) \<and>
          \<not> (\<exists>functions generated.
               stages_succeed ext p w functions generated \<and>
               write_text ext (dest_path p)
                 (ensure_imports_and_header (stem (file_name p)) generated functions) = Inr ()))"
proof -
  have first: "pytest_header (hd (splitlines (ensure_imports_and_header m g fs)))" for m g fs
    using guard_first_line [of m g fs] by auto
  have second: "module_name_ok m \<longrightarrow>
      list_ex (module_import m) (splitlines (ensure_imports_and_header m g fs))" for m g fs
    using list_ex_splitlines_guarded [of m g fs] by (simp add: ensure_unlines)
  from main_outcome [OF assms] first second show ?thesis
    by blast
qed

theorem pipeline_no_partial_success_witness:
  "fst (main (example_extern add_source add_tree bare_test_reply) calc_path False
          (example_world add_source)) = Inr () \<and>
   files (snd (main (example_extern add_source add_tree bare_test_reply) calc_path False
          (example_world add_source))) (Path (lit ''proj'') (lit ''test_calc.py''))
     = Some (lit ''import pytest'' @ NL @ lit ''from calc import add'' @ NL @ bare_test_reply) \<and>
   writes (trace (snd (main (example_extern add_source add_tree bare_test_reply) calc_path False
          (example_world add_source)))) = [Path (lit ''proj'') (lit ''test_calc.py'')]"
proof -
  let ?E = "example_extern add_source add_tree bare_test_reply"
  let ?W = "example_world add_source"
  have dest: "dest_path calc_path = Path (lit ''proj'') (lit ''test_calc.py'')"
    by (simp add: dest_path_def calc_path_def stem_example) (simp add: lit_def)
  have guard: "ensure_imports_and_header (lit ''calc'') bare_test_reply [add_sig]
               = lit ''import pytest'' @ NL @ lit ''from calc import add'' @ NL @ bare_test_reply"
    by (simp add: bare_test_reply_def guard_eval str_eval)
  note r = example_run [of bare_test_reply]
  have "main ?E calc_path False ?W = (fst (main ?E calc_path False ?W), snd (main ?E calc_path False ?W))"
    by simp
  from pipeline_no_partial_success [OF this] r
  have "writes (trace (snd (main ?E calc_path False ?W))) = writes (trace ?W) @ [dest_path calc_path]"
    by auto
  then have "writes (trace (snd (main ?E calc_path False ?W))) = [Path (lit ''proj'') (lit ''test_calc.py'')]"
    by (simp add: example_world_def dest)
  with r show ?thesis
    unfolding guard by simp
qed

end
